theory Spec2Isabelle
  imports Complex_Main "HOL-Library.Word"
begin

section \<open>JavaScript values\<close>

text \<open>
  The pixel pipeline of \<^verbatim>\<open>processor.js\<close> computes with JavaScript numbers. They are
  modelled as real numbers: \<^verbatim>\<open>Math.pow\<close> is the real power, \<^verbatim>\<open>Math.sqrt\<close> is \<open>sqrt\<close>,
  \<^verbatim>\<open>Math.round\<close> rounds halves upwards. The rounding
  error of IEEE doubles is outside this model. \<^verbatim>\<open>NaN\<close> and the infinities appear only
  where the source can receive them from a caller: in the palette objects that
  \<^verbatim>\<open>validatePalette\<close> inspects, and as the initial \<^verbatim>\<open>minDist = Infinity\<close> of the colour search
  (\<open>None\<close> below).

  An element of a \<^verbatim>\<open>Uint8ClampedArray\<close> or of a Node \<^verbatim>\<open>Buffer\<close> is a byte. Reading a typed
  array outside its bounds yields \<^verbatim>\<open>undefined\<close>, which arithmetic turns into \<^verbatim>\<open>NaN\<close>; the
  theorems therefore assume the \<^verbatim>\<open>ImageData\<close> invariant \<open>length data = 4 * width * height\<close>,
  under which every read of the source is in range. Writing outside the bounds of a typed
  array is ignored, which is what \<open>xs[i := v]\<close> does.
\<close>

type_synonym byte = "8 word"

type_synonym rgb = "real \<times> real \<times> real"

datatype js_error = Error string | TypeError | RangeError | SyntaxError

definition thenE :: "'e + 'a \<Rightarrow> ('a \<Rightarrow> 'e + 'b) \<Rightarrow> 'e + 'b" where
  "thenE m f = (case m of Inl e \<Rightarrow> Inl e | Inr v \<Rightarrow> f v)"

fun foldE :: "('x \<Rightarrow> 's \<Rightarrow> 'e + 's) \<Rightarrow> 'x list \<Rightarrow> 's \<Rightarrow> 'e + 's" where
  "foldE f [] s = Inr s"
| "foldE f (x # xs) s = (case f x s of Inl e \<Rightarrow> Inl e | Inr s' \<Rightarrow> foldE f xs s')"

definition Math_round :: "real \<Rightarrow> real" where
  "Math_round v = of_int \<lfloor>v + 1 / 2\<rfloor>"

text \<open>The conversion \<^verbatim>\<open>ToUint8Clamp\<close> of a store into a \<^verbatim>\<open>Uint8ClampedArray\<close>: clamp to
  \<open>[0, 255]\<close>, then round to the nearest integer, a half to the even neighbour.\<close>

definition toUint8Clamp :: "real \<Rightarrow> byte" where
  "toUint8Clamp v =
     (if v \<le> 0 then 0
      else if 255 \<le> v then 255
      else (let f = \<lfloor>v\<rfloor> in
            if of_int f + 1 / 2 < v then of_int (f + 1)
            else if v < of_int f + 1 / 2 then of_int f
            else if even f then of_int f else of_int (f + 1)))"

text \<open>\<^verbatim>\<open>Math.pow\<close> on a base that is not negative: \<^verbatim>\<open>Math.pow(x, 0)\<close> is 1 for every
  \<open>x\<close>. A negative base with a fractional exponent (\<^verbatim>\<open>NaN\<close>) and a zero base with a
  negative exponent (\<^verbatim>\<open>Infinity\<close>) are outside the model.\<close>

definition Math_pow :: "real \<Rightarrow> real \<Rightarrow> real" where
  "Math_pow x y = (if y = 0 then 1 else x powr y)"

text \<open>The remainder \<^verbatim>\<open>a % b\<close> of JavaScript, which has the sign of \<open>a\<close>.\<close>

definition js_rem :: "real \<Rightarrow> real \<Rightarrow> real" where
  "js_rem a b = a - b * of_int (if 0 \<le> a / b then \<lfloor>a / b\<rfloor> else \<lceil>a / b\<rceil>)"

definition byteVal :: "byte \<Rightarrow> real" where
  "byteVal v = real (unat v)"

record imageData =
  width :: nat
  height :: nat
  data :: "byte list"

definition wf_image :: "imageData \<Rightarrow> bool" where
  "wf_image img = (length (data img) = 4 * width img * height img)"

section \<open>Palettes (palettes.js, paletteToArray)\<close>

text \<open>A colour \<^verbatim>\<open>{ r, g, b }\<close> is a triple; a palette has the six colour roles.\<close>

record palette =
  black :: rgb
  white :: rgb
  yellow :: rgb
  red :: rgb
  blue :: rgb
  green :: rgb

record palettePair =
  theoretical :: palette
  perceived :: palette

definition SPECTRA6 :: palettePair where
  "SPECTRA6 =
     \<lparr>theoretical =
        \<lparr>black = (0, 0, 0), white = (255, 255, 255), yellow = (255, 255, 0),
         red = (255, 0, 0), blue = (0, 0, 255), green = (0, 255, 0)\<rparr>,
      perceived =
        \<lparr>black = (2, 2, 2), white = (190, 200, 200), yellow = (205, 202, 0),
         red = (135, 19, 0), blue = (5, 64, 158), green = (39, 102, 60)\<rparr>\<rparr>"

definition paletteToArray :: "palette \<Rightarrow> rgb list" where
  "paletteToArray p = [black p, white p, yellow p, red p, (0, 0, 0), blue p, green p]"

section \<open>Colour space conversion\<close>

definition rgbToXyz :: "real \<Rightarrow> real \<Rightarrow> real \<Rightarrow> real \<times> real \<times> real" where
  "rgbToXyz r0 g0 b0 =
     (let r = r0 / 255; g = g0 / 255; b = b0 / 255;
          r = (if r > 0.04045 then Math_pow ((r + 0.055) / 1.055) 2.4 else r / 12.92);
          g = (if g > 0.04045 then Math_pow ((g + 0.055) / 1.055) 2.4 else g / 12.92);
          b = (if b > 0.04045 then Math_pow ((b + 0.055) / 1.055) 2.4 else b / 12.92);
          x = r * 0.4124564 + g * 0.3575761 + b * 0.1804375;
          y = r * 0.2126729 + g * 0.7151522 + b * 0.072175;
          z = r * 0.0193339 + g * 0.119192 + b * 0.9503041
      in (x * 100, y * 100, z * 100))"

definition xyzToLab :: "real \<Rightarrow> real \<Rightarrow> real \<Rightarrow> real \<times> real \<times> real" where
  "xyzToLab x0 y0 z0 =
     (let x = x0 / 95.047; y = y0 / 100.0; z = z0 / 108.883;
          x = (if x > 0.008856 then Math_pow x (1 / 3) else 7.787 * x + 16 / 116);
          y = (if y > 0.008856 then Math_pow y (1 / 3) else 7.787 * y + 16 / 116);
          z = (if z > 0.008856 then Math_pow z (1 / 3) else 7.787 * z + 16 / 116);
          L = 116 * y - 16;
          a = 500 * (x - y);
          bVal = 200 * (y - z)
      in (L, a, bVal))"

definition rgbToLab :: "real \<Rightarrow> real \<Rightarrow> real \<Rightarrow> real \<times> real \<times> real" where
  "rgbToLab r g b = (case rgbToXyz r g b of (x, y, z) \<Rightarrow> xyzToLab x y z)"

definition labToXyz :: "real \<Rightarrow> real \<Rightarrow> real \<Rightarrow> real \<times> real \<times> real" where
  "labToXyz L a b =
     (let y = (L + 16) / 116;
          x = a / 500 + y;
          z = y - b / 200;
          x = (if x > 0.206897 then Math_pow x 3 else (x - 16 / 116) / 7.787);
          y = (if y > 0.206897 then Math_pow y 3 else (y - 16 / 116) / 7.787);
          z = (if z > 0.206897 then Math_pow z 3 else (z - 16 / 116) / 7.787)
      in (x * 95.047, y * 100.0, z * 108.883))"

definition xyzToRgb :: "real \<Rightarrow> real \<Rightarrow> real \<Rightarrow> real \<times> real \<times> real" where
  "xyzToRgb x0 y0 z0 =
     (let x = x0 / 100; y = y0 / 100; z = z0 / 100;
          r = x * 3.2404542 + y * (- 1.5371385) + z * (- 0.4985314);
          g = x * (- 0.969266) + y * 1.8760108 + z * 0.041556;
          b = x * 0.0556434 + y * (- 0.2040259) + z * 1.0572252;
          r = (if r > 0.0031308 then 1.055 * Math_pow r (1 / 2.4) - 0.055 else 12.92 * r);
          g = (if g > 0.0031308 then 1.055 * Math_pow g (1 / 2.4) - 0.055 else 12.92 * g);
          b = (if b > 0.0031308 then 1.055 * Math_pow b (1 / 2.4) - 0.055 else 12.92 * b)
      in (max 0 (min 255 (Math_round (r * 255))),
          max 0 (min 255 (Math_round (g * 255))),
          max 0 (min 255 (Math_round (b * 255)))))"

definition labToRgb :: "real \<Rightarrow> real \<Rightarrow> real \<Rightarrow> real \<times> real \<times> real" where
  "labToRgb L a b = (case labToXyz L a b of (x, y, z) \<Rightarrow> xyzToRgb x y z)"

definition deltaE :: "real \<times> real \<times> real \<Rightarrow> real \<times> real \<times> real \<Rightarrow> real" where
  "deltaE lab1 lab2 =
     (case lab1 of (L1, a1, b1) \<Rightarrow> case lab2 of (L2, a2, b2) \<Rightarrow>
        (let dL = L1 - L2; da = a1 - a2; db = b1 - b2
         in sqrt (dL * dL + da * da + db * db)))"

section \<open>Colour matching\<close>

text \<open>\<^verbatim>\<open>dist < minDist\<close>, where \<open>None\<close> is the initial \<^verbatim>\<open>Infinity\<close>.\<close>

fun lessThanMin :: "real \<Rightarrow> real option \<Rightarrow> bool" where
  "lessThanMin d None = True"
| "lessThanMin d (Some m) = (d < m)"

definition findClosestColorRGB :: "real \<Rightarrow> real \<Rightarrow> real \<Rightarrow> rgb list \<Rightarrow> nat" where
  "findClosestColorRGB r g b paletteArray =
     snd (fold
       (\<lambda>i (minDist, closest).
          if i = 4 then (minDist, closest)
          else (case paletteArray ! i of (pr, pg, pb) \<Rightarrow>
            (let dr = r - pr; dg = g - pg; db = b - pb;
                 dist = dr * dr + dg * dg + db * db
             in if lessThanMin dist minDist then (Some dist, i) else (minDist, closest))))
       [0..<length paletteArray] (None, 1))"

definition findClosestColorLAB ::
  "real \<Rightarrow> real \<Rightarrow> real \<Rightarrow> rgb list \<Rightarrow> (real \<times> real \<times> real) list \<Rightarrow> nat" where
  "findClosestColorLAB r g b paletteArray paletteLab =
     (let inputLab = rgbToLab r g b
      in snd (fold
        (\<lambda>i (minDist, closest).
           if i = 4 then (minDist, closest)
           else (let dist = deltaE inputLab (paletteLab ! i)
                 in if lessThanMin dist minDist then (Some dist, i) else (minDist, closest)))
        [0..<length paletteArray] (None, 1)))"

definition findClosestColor ::
  "real \<Rightarrow> real \<Rightarrow> real \<Rightarrow> string \<Rightarrow> rgb list \<Rightarrow> (real \<times> real \<times> real) list \<Rightarrow> nat" where
  "findClosestColor r g b method paletteArray paletteLab =
     (if method = ''lab'' then findClosestColorLAB r g b paletteArray paletteLab
      else findClosestColorRGB r g b paletteArray)"

text \<open>The squared distance and the Delta-E that the two searches minimise.\<close>

definition distRGB :: "real \<Rightarrow> real \<Rightarrow> real \<Rightarrow> rgb \<Rightarrow> real" where
  "distRGB r g b p = (case p of (pr, pg, pb) \<Rightarrow>
     (r - pr) * (r - pr) + (g - pg) * (g - pg) + (b - pb) * (b - pb))"

text \<open>One iteration of either search loop, over an arbitrary distance.\<close>

definition closerStep :: "(nat \<Rightarrow> real) \<Rightarrow> nat \<Rightarrow> real option \<times> nat \<Rightarrow> real option \<times> nat" where
  "closerStep distance i st =
     (if i = 4 then st
      else if lessThanMin (distance i) (fst st) then (Some (distance i), i) else st)"

definition activeSlots :: "nat set" where
  "activeSlots = {0, 1, 2, 3, 5, 6}"

section \<open>Palette validation (palettes.js)\<close>

text \<open>
  \<^verbatim>\<open>validatePalette\<close> is exported and receives an arbitrary JavaScript value, so its
  argument is a value of the following type. An object is the list of its own properties;
  a property that is not there reads as \<^verbatim>\<open>undefined\<close>, as does every property of a
  primitive value that the validator asks for (the validator tests truthiness before each
  access, so it never reads a property of \<^verbatim>\<open>null\<close> or \<^verbatim>\<open>undefined\<close>).
  The values are those a JSON text or an object literal of numbers, strings and booleans
  can denote; functions, symbols and big integers are not represented.
\<close>

datatype js_number = Finite real | NaN | PosInfinity | NegInfinity

datatype js_value =
    JUndefined
  | JNull
  | JBool bool
  | JNum js_number
  | JStr string
  | JObj "(string \<times> js_value) list"

fun typeof :: "js_value \<Rightarrow> string" where
  "typeof JUndefined = ''undefined''"
| "typeof JNull = ''object''"
| "typeof (JBool _) = ''boolean''"
| "typeof (JNum _) = ''number''"
| "typeof (JStr _) = ''string''"
| "typeof (JObj _) = ''object''"

fun truthy :: "js_value \<Rightarrow> bool" where
  "truthy JUndefined = False"
| "truthy JNull = False"
| "truthy (JBool b) = b"
| "truthy (JNum (Finite v)) = (v \<noteq> 0)"
| "truthy (JNum NaN) = False"
| "truthy (JNum _) = True"
| "truthy (JStr s) = (s \<noteq> [])"
| "truthy (JObj _) = True"

fun getProp :: "js_value \<Rightarrow> string \<Rightarrow> js_value" where
  "getProp (JObj kvs) k = (case map_of kvs k of Some v \<Rightarrow> v | None \<Rightarrow> JUndefined)"
| "getProp _ k = JUndefined"

text \<open>\<^verbatim>\<open>v < c\<close> and \<^verbatim>\<open>v > c\<close> for a value whose type is number and a finite constant:
  every comparison with \<^verbatim>\<open>NaN\<close> is false.\<close>

fun numLess :: "js_value \<Rightarrow> real \<Rightarrow> bool" where
  "numLess (JNum (Finite v)) c = (v < c)"
| "numLess (JNum NegInfinity) c = True"
| "numLess _ c = False"

fun numGreater :: "js_value \<Rightarrow> real \<Rightarrow> bool" where
  "numGreater (JNum (Finite v)) c = (v > c)"
| "numGreater (JNum PosInfinity) c = True"
| "numGreater _ c = False"

definition requiredColors :: "string list" where
  "requiredColors = [''black'', ''white'', ''yellow'', ''red'', ''blue'', ''green'']"

text \<open>The body of the loop of \<^verbatim>\<open>validateSinglePalette\<close> over the required colours.\<close>

definition validateColor :: "js_value \<Rightarrow> string \<Rightarrow> string \<Rightarrow> js_error + unit" where
  "validateColor pal name color =
     (if \<not> truthy (getProp pal color)
      then Inl (Error (''Missing required color in '' @ name @ '' palette: '' @ color))
      else (let r = getProp (getProp pal color) ''r'';
                g = getProp (getProp pal color) ''g'';
                b = getProp (getProp pal color) ''b''
            in if typeof r \<noteq> ''number'' \<or> typeof g \<noteq> ''number'' \<or> typeof b \<noteq> ''number''
               then Inl (Error (''Invalid RGB values for '' @ name @ ''.'' @ color))
               else if numLess r 0 \<or> numGreater r 255 \<or> numLess g 0 \<or> numGreater g 255
                       \<or> numLess b 0 \<or> numGreater b 255
               then Inl (Error (''RGB values must be 0-255 for '' @ name @ ''.'' @ color))
               else Inr ()))"

definition validateSinglePalette :: "js_value \<Rightarrow> string \<Rightarrow> js_error + unit" where
  "validateSinglePalette pal name =
     (if \<not> truthy pal \<or> typeof pal \<noteq> ''object''
      then Inl (Error (name @ '' palette must be an object''))
      else foldE (\<lambda>color _. validateColor pal name color) requiredColors ())"

definition validatePalette :: "js_value \<Rightarrow> js_error + bool" where
  "validatePalette pp =
     (if \<not> truthy pp \<or> typeof pp \<noteq> ''object''
      then Inl (Error ''Palette must be an object'')
      else if \<not> truthy (getProp pp ''theoretical'')
      then Inl (Error ''Palette must have a 'theoretical' property'')
      else if \<not> truthy (getProp pp ''perceived'')
      then Inl (Error ''Palette must have a 'perceived' property'')
      else thenE (validateSinglePalette (getProp pp ''theoretical'') ''theoretical'') (\<lambda>_.
           thenE (validateSinglePalette (getProp pp ''perceived'') ''perceived'') (\<lambda>_.
           Inr True)))"

text \<open>\<^verbatim>\<open>JSON.parse\<close> is a parameter: it maps a string to the parsed value, or to \<open>None\<close>
  where it throws a \<^verbatim>\<open>SyntaxError\<close>.\<close>

definition parsePalette :: "(string \<Rightarrow> js_value option) \<Rightarrow> string \<Rightarrow> js_error + js_value" where
  "parsePalette JSON_parse jsonString =
     (case JSON_parse jsonString of
        None \<Rightarrow> Inl SyntaxError
      | Some pp \<Rightarrow> thenE (validatePalette pp) (\<lambda>_. Inr pp))"

text \<open>The requirement of the specification on a palette pair, in its words: both palettes
  are there, each has the six colour roles, and every channel of every role is a number in
  \<open>[0, 255]\<close>. A palette, role or channel that is missing reads as \<^verbatim>\<open>undefined\<close>, which is
  not such a number.\<close>

fun channelInRange :: "js_value \<Rightarrow> bool" where
  "channelInRange (JNum (Finite v)) = (0 \<le> v \<and> v \<le> 255)"
| "channelInRange _ = False"

definition paletteNames :: "string list" where
  "paletteNames = [''theoretical'', ''perceived'']"

definition channelNames :: "string list" where
  "channelNames = [''r'', ''g'', ''b'']"

definition validPalettePair :: "js_value \<Rightarrow> bool" where
  "validPalettePair pp =
     (\<forall>name \<in> set paletteNames. \<forall>color \<in> set requiredColors. \<forall>ch \<in> set channelNames.
        channelInRange (getProp (getProp (getProp pp name) color) ch))"

text \<open>What the validator accepts as a channel.\<close>

fun channelAccepted :: "js_value \<Rightarrow> bool" where
  "channelAccepted (JNum (Finite v)) = (0 \<le> v \<and> v \<le> 255)"
| "channelAccepted (JNum NaN) = True"
| "channelAccepted _ = False"

text \<open>What the validator accepts as a palette pair.\<close>

definition acceptedPalettePair :: "js_value \<Rightarrow> bool" where
  "acceptedPalettePair pp =
     (\<forall>name \<in> set paletteNames. \<forall>color \<in> set requiredColors. \<forall>ch \<in> set channelNames.
        channelAccepted (getProp (getProp (getProp pp name) color) ch))"

text \<open>The object \<^verbatim>\<open>{ theoretical: {black: {r, g, b}, ...}, perceived: {...} }\<close> whose
  channel values are given by \<open>f\<close>.\<close>

definition colorObject :: "(string \<Rightarrow> js_value) \<Rightarrow> js_value" where
  "colorObject f = JObj (map (\<lambda>ch. (ch, f ch)) channelNames)"

definition paletteObject :: "(string \<Rightarrow> string \<Rightarrow> js_value) \<Rightarrow> js_value" where
  "paletteObject f = JObj (map (\<lambda>color. (color, colorObject (f color))) requiredColors)"

definition palettePairObject :: "(string \<Rightarrow> string \<Rightarrow> string \<Rightarrow> js_value) \<Rightarrow> js_value" where
  "palettePairObject f = JObj (map (\<lambda>name. (name, paletteObject (f name))) paletteNames)"

definition toChannels :: "palettePair \<Rightarrow> string \<Rightarrow> string \<Rightarrow> string \<Rightarrow> js_value" where
  "toChannels pp name color ch =
     (let p = (if name = ''theoretical'' then theoretical pp else perceived pp);
          c = (if color = ''black'' then black p else if color = ''white'' then white p
               else if color = ''yellow'' then yellow p else if color = ''red'' then red p
               else if color = ''blue'' then blue p else green p)
      in case c of (r, g, b) \<Rightarrow>
           JNum (Finite (if ch = ''r'' then r else if ch = ''g'' then g else b)))"

section \<open>Image adjustment\<close>

text \<open>The indices \<open>0, 4, 8, ...\<close> below the length of the data: the values of \<open>i\<close> in
  \<^verbatim>\<open>for (let i = 0; i < data.length; i += 4)\<close>.\<close>

definition pixelOffsets :: "nat \<Rightarrow> nat list" where
  "pixelOffsets n = map (\<lambda>k. 4 * k) [0..<(n + 3) div 4]"

definition applyExposure :: "imageData \<Rightarrow> real \<Rightarrow> imageData" where
  "applyExposure img exposure =
     (if exposure = 1 then img
      else img\<lparr>data := fold
        (\<lambda>i d.
           (let d = d[i := toUint8Clamp (min 255 (Math_round (byteVal (d ! i) * exposure)))];
                d = d[i + 1 := toUint8Clamp (min 255 (Math_round (byteVal (d ! (i + 1)) * exposure)))];
                d = d[i + 2 := toUint8Clamp (min 255 (Math_round (byteVal (d ! (i + 2)) * exposure)))]
            in d))
        (pixelOffsets (length (data img))) (data img)\<rparr>)"

definition applyContrast :: "imageData \<Rightarrow> real \<Rightarrow> imageData" where
  "applyContrast img contrast =
     (if contrast = 1 then img
      else (let factor = contrast in
        img\<lparr>data := fold
          (\<lambda>i d.
             (let d = d[i := toUint8Clamp
                        (max 0 (min 255 (Math_round ((byteVal (d ! i) - 128) * factor + 128))))];
                  d = d[i + 1 := toUint8Clamp
                        (max 0 (min 255 (Math_round ((byteVal (d ! (i + 1)) - 128) * factor + 128))))];
                  d = d[i + 2 := toUint8Clamp
                        (max 0 (min 255 (Math_round ((byteVal (d ! (i + 2)) - 128) * factor + 128))))]
              in d))
          (pixelOffsets (length (data img))) (data img)\<rparr>))"

definition applySaturation :: "imageData \<Rightarrow> real \<Rightarrow> imageData" where
  "applySaturation img saturation =
     (if saturation = 1 then img
      else img\<lparr>data := fold
        (\<lambda>i d.
           (let r = byteVal (d ! i); g = byteVal (d ! (i + 1)); b = byteVal (d ! (i + 2));
                mx = max r (max g b) / 255;
                mn = min r (min g b) / 255;
                l = (mx + mn) / 2
            in if mx = mn then d
               else
                 (let dd = mx - mn;
                      s = (if l > 0.5 then dd / (2 - mx - mn) else dd / (mx + mn));
                      h = (if mx = r / 255 then ((g / 255 - b / 255) / dd + (if g < b then 6 else 0)) / 6
                           else if mx = g / 255 then ((b / 255 - r / 255) / dd + 2) / 6
                           else ((r / 255 - g / 255) / dd + 4) / 6);
                      newS = max 0 (min 1 (s * saturation));
                      c = (1 - \<bar>2 * l - 1\<bar>) * newS;
                      x = c * (1 - \<bar>js_rem (h * 6) 2 - 1\<bar>);
                      m = l - c / 2;
                      hSector = \<lfloor>h * 6\<rfloor>;
                      prime = (if hSector = 0 then (c, x, 0)
                               else if hSector = 1 then (x, c, 0)
                               else if hSector = 2 then (0, c, x)
                               else if hSector = 3 then (0, x, c)
                               else if hSector = 4 then (x, 0, c)
                               else (c, 0, x))
                  in case prime of (rPrime, gPrime, bPrime) \<Rightarrow>
                       d[i := toUint8Clamp (Math_round ((rPrime + m) * 255)),
                         i + 1 := toUint8Clamp (Math_round ((gPrime + m) * 255)),
                         i + 2 := toUint8Clamp (Math_round ((bPrime + m) * 255))])))
        (pixelOffsets (length (data img))) (data img)\<rparr>)"

definition applyScurveTonemap :: "imageData \<Rightarrow> real \<Rightarrow> real \<Rightarrow> real \<Rightarrow> real \<Rightarrow> imageData" where
  "applyScurveTonemap img strength shadowBoost highlightCompress midpoint =
     (if strength = 0 then img
      else img\<lparr>data := fold
        (\<lambda>i d. fold
           (\<lambda>c d.
              (let normalized = byteVal (d ! (i + c)) / 255.0;
                   result =
                     (if normalized \<le> midpoint
                      then (let shadowVal = normalized / midpoint
                            in Math_pow shadowVal (1.0 - strength * shadowBoost) * midpoint)
                      else (let highlightVal = (normalized - midpoint) / (1.0 - midpoint)
                            in midpoint +
                               Math_pow highlightVal (1.0 + strength * highlightCompress)
                                 * (1.0 - midpoint)))
               in d[i + c := toUint8Clamp (Math_round (max 0 (min 1 result) * 255))]))
           [0..<3] d)
        (pixelOffsets (length (data img))) (data img)\<rparr>)"

section \<open>Processing parameters (presets.js)\<close>

text \<open>A field that the pipeline reads behind a truthiness guard (\<^verbatim>\<open>params.exposure &&\<close>,
  \<^verbatim>\<open>params.toneMode ||\<close>) is optional; \<open>None\<close> stands for a missing field and, for a number,
  for \<^verbatim>\<open>NaN\<close>.\<close>

record processingParams =
  exposure :: "real option"
  saturation :: real
  toneMode :: "string option"
  contrast :: "real option"
  strength :: real
  shadowBoost :: real
  highlightCompress :: real
  midpoint :: real
  colorMethod :: "string option"
  ditherAlgorithm :: "string option"
  compressDynamicRange :: bool

definition getDefaultParams :: processingParams where
  "getDefaultParams =
     \<lparr>exposure = Some 1.0, saturation = 1.0, toneMode = Some ''contrast'', contrast = Some 1.0,
      strength = 0.9, shadowBoost = 0.0, highlightCompress = 1.5, midpoint = 0.5,
      colorMethod = Some ''rgb'', ditherAlgorithm = Some ''floyd-steinberg'',
      compressDynamicRange = True\<rparr>"

text \<open>The truthiness of an optional number and \<^verbatim>\<open>s || dflt\<close> on an optional string.\<close>

fun truthyNumber :: "real option \<Rightarrow> bool" where
  "truthyNumber None = False"
| "truthyNumber (Some v) = (v \<noteq> 0)"

fun orDefault :: "string option \<Rightarrow> string \<Rightarrow> string" where
  "orDefault None dflt = dflt"
| "orDefault (Some s) dflt = (if s = [] then dflt else s)"

section \<open>Image preprocessing\<close>

definition preprocessImage :: "imageData \<Rightarrow> processingParams \<Rightarrow> palette option \<Rightarrow> imageData" where
  "preprocessImage img0 params perceivedPalette =
     (let tone = orDefault (toneMode params) ''contrast'';
          img = (if truthyNumber (exposure params) \<and> exposure params \<noteq> Some 1.0
                 then applyExposure img0 (the (exposure params)) else img0);
          img = (if saturation params \<noteq> 1.0
                 then applySaturation img (saturation params) else img);
          img = (if tone = ''contrast''
                 then (if truthyNumber (contrast params) \<and> contrast params \<noteq> Some 1.0
                       then applyContrast img (the (contrast params)) else img)
                 else applyScurveTonemap img (strength params) (shadowBoost params)
                        (highlightCompress params) (midpoint params))
      in if compressDynamicRange params
         then (case perceivedPalette of
                 None \<Rightarrow> img
               | Some pal \<Rightarrow>
                   (case black pal of (blackR, blackG, blackB) \<Rightarrow>
                    case white pal of (whiteR, whiteG, whiteB) \<Rightarrow>
                    case rgbToLab blackR blackG blackB of (blackL, _, _) \<Rightarrow>
                    case rgbToLab whiteR whiteG whiteB of (whiteL, _, _) \<Rightarrow>
                      img\<lparr>data := fold
                        (\<lambda>i d.
                           (let r = byteVal (d ! i); g = byteVal (d ! (i + 1));
                                b = byteVal (d ! (i + 2))
                            in case rgbToLab r g b of (l, a, bLab) \<Rightarrow>
                                 (let compressedL = blackL + (l / 100) * (whiteL - blackL)
                                  in case labToRgb compressedL a bLab of (newR, newG, newB) \<Rightarrow>
                                       d[i := toUint8Clamp newR,
                                         i + 1 := toUint8Clamp newG,
                                         i + 2 := toUint8Clamp newB])))
                        (pixelOffsets (length (data img))) (data img)\<rparr>))
         else img)"

section \<open>Dithering\<close>

text \<open>An entry \<^verbatim>\<open>[dx, dy, weight]\<close> of a diffusion matrix.\<close>

type_synonym diffusionEntry = "int \<times> int \<times> real"

definition DIFFUSION_MATRICES :: "string \<Rightarrow> diffusionEntry list option" where
  "DIFFUSION_MATRICES name =
     (if name = ''floyd-steinberg'' then Some
        [(1, 0, 7 / 16), (- 1, 1, 3 / 16), (0, 1, 5 / 16), (1, 1, 1 / 16)]
      else if name = ''stucki'' then Some
        [(1, 0, 8 / 42), (2, 0, 4 / 42),
         (- 2, 1, 2 / 42), (- 1, 1, 4 / 42), (0, 1, 8 / 42), (1, 1, 4 / 42), (2, 1, 2 / 42),
         (- 2, 2, 1 / 42), (- 1, 2, 2 / 42), (0, 2, 4 / 42), (1, 2, 2 / 42), (2, 2, 1 / 42)]
      else if name = ''burkes'' then Some
        [(1, 0, 8 / 32), (2, 0, 4 / 32),
         (- 2, 1, 2 / 32), (- 1, 1, 4 / 32), (0, 1, 8 / 32), (1, 1, 4 / 32), (2, 1, 2 / 32)]
      else if name = ''sierra'' then Some
        [(1, 0, 5 / 32), (2, 0, 3 / 32),
         (- 2, 1, 2 / 32), (- 1, 1, 4 / 32), (0, 1, 5 / 32), (1, 1, 4 / 32), (2, 1, 2 / 32),
         (- 1, 2, 2 / 32), (0, 2, 3 / 32), (1, 2, 2 / 32)]
      else None)"

text \<open>
  \<^verbatim>\<open>DIFFUSION_MATRICES\<close> is an object literal, so the lookup \<^verbatim>\<open>DIFFUSION_MATRICES[algorithm]\<close>
  also finds the properties inherited from \<^verbatim>\<open>Object.prototype\<close>. Each of them is truthy,
  so the fallback \<^verbatim>\<open>|| DIFFUSION_MATRICES["floyd-steinberg"]\<close> is not taken, and none is
  iterable: \<^verbatim>\<open>for (... of diffusionMatrix)\<close> then throws a \<^verbatim>\<open>TypeError\<close>. The result \<open>None\<close>
  of \<open>diffusionMatrix\<close> stands for such a value.
\<close>

definition objectPrototypeKeys :: "string list" where
  "objectPrototypeKeys =
     [''constructor'', ''__defineGetter__'', ''__defineSetter__'', ''hasOwnProperty'',
      ''__lookupGetter__'', ''__lookupSetter__'', ''isPrototypeOf'', ''propertyIsEnumerable'',
      ''toString'', ''valueOf'', ''__proto__'', ''toLocaleString'']"

definition diffusionMatrix :: "string \<Rightarrow> diffusionEntry list option" where
  "diffusionMatrix algorithm =
     (case DIFFUSION_MATRICES algorithm of
        Some m \<Rightarrow> Some m
      | None \<Rightarrow>
          if algorithm \<in> set objectPrototypeKeys then None
          else DIFFUSION_MATRICES ''floyd-steinberg'')"

text \<open>The body of the loop over the diffusion matrix.\<close>

definition diffuse ::
  "nat \<Rightarrow> nat \<Rightarrow> nat \<Rightarrow> nat \<Rightarrow> real \<Rightarrow> real \<Rightarrow> real \<Rightarrow> diffusionEntry \<Rightarrow> real list \<Rightarrow> real list" where
  "diffuse w h x y errR errG errB entry errors =
     (case entry of (dx, dy, weight) \<Rightarrow>
        (let nx = int x + dx; ny = int y + dy
         in if nx \<ge> 0 \<and> nx < int w \<and> ny \<ge> 0 \<and> ny < int h
            then (let nextIdx = nat ((ny * int w + nx) * 3);
                      errors = errors[nextIdx := errors ! nextIdx + errR * weight];
                      errors = errors[nextIdx + 1 := errors ! (nextIdx + 1) + errG * weight];
                      errors = errors[nextIdx + 2 := errors ! (nextIdx + 2) + errB * weight]
                  in errors)
            else errors))"

text \<open>The body of the loops over \<open>y\<close> and \<open>x\<close>, on the pixel data and the error buffer.
  Destructuring \<^verbatim>\<open>outputPaletteArray[colorIdx]\<close> or \<^verbatim>\<open>ditherPaletteArray[colorIdx]\<close> throws a
  \<^verbatim>\<open>TypeError\<close> when the index is not in the array.\<close>

definition ditherPixel ::
  "nat \<Rightarrow> nat \<Rightarrow> string \<Rightarrow> rgb list \<Rightarrow> rgb list \<Rightarrow> (real \<times> real \<times> real) list
     \<Rightarrow> diffusionEntry list option \<Rightarrow> nat \<Rightarrow> nat
     \<Rightarrow> byte list \<times> real list \<Rightarrow> js_error + byte list \<times> real list" where
  "ditherPixel w h method outputPaletteArray ditherPaletteArray ditherPaletteLab matrix y x st =
     (case st of (d, errors) \<Rightarrow>
        (let idx = (y * w + x) * 4;
             errIdx = (y * w + x) * 3;
             oldR = max 0 (min 255 (byteVal (d ! idx) + errors ! errIdx));
             oldG = max 0 (min 255 (byteVal (d ! (idx + 1)) + errors ! (errIdx + 1)));
             oldB = max 0 (min 255 (byteVal (d ! (idx + 2)) + errors ! (errIdx + 2)));
             colorIdx = findClosestColor oldR oldG oldB method ditherPaletteArray ditherPaletteLab
         in if colorIdx \<ge> length outputPaletteArray then Inl TypeError
            else (case outputPaletteArray ! colorIdx of (newR, newG, newB) \<Rightarrow>
              (let d = d[idx := toUint8Clamp newR];
                   d = d[idx + 1 := toUint8Clamp newG];
                   d = d[idx + 2 := toUint8Clamp newB]
               in if colorIdx \<ge> length ditherPaletteArray then Inl TypeError
                  else (case ditherPaletteArray ! colorIdx of (ditherR, ditherG, ditherB) \<Rightarrow>
                    (let errR = oldR - ditherR;
                         errG = oldG - ditherG;
                         errB = oldB - ditherB
                     in case matrix of
                          None \<Rightarrow> Inl TypeError
                        | Some m \<Rightarrow> Inr (d, fold (diffuse w h x y errR errG errB) m errors)))))))"

definition applyErrorDiffusionDither ::
  "imageData \<Rightarrow> string \<Rightarrow> rgb list \<Rightarrow> rgb list \<Rightarrow> string \<Rightarrow> js_error + imageData" where
  "applyErrorDiffusionDither img method outputPaletteArray ditherPaletteArray algorithm =
     (let w = width img;
          h = height img;
          errors = replicate (w * h * 3) 0;
          matrix = diffusionMatrix algorithm;
          ditherPaletteLab =
            (if method = ''lab'' then map (\<lambda>(r, g, b). rgbToLab r g b) ditherPaletteArray
             else [])
      in case foldE
           (\<lambda>y. foldE
              (\<lambda>x. ditherPixel w h method outputPaletteArray ditherPaletteArray
                      ditherPaletteLab matrix y x)
              [0..<w])
           [0..<h] (data img, errors) of
           Inl e \<Rightarrow> Inl e
         | Inr (d, _) \<Rightarrow> Inr (img\<lparr>data := d\<rparr>))"

text \<open>The pixel at column \<open>x\<close> and row \<open>y\<close>, as the numbers that reading its three colour
  channels gives.\<close>

definition pixelAt :: "imageData \<Rightarrow> nat \<Rightarrow> nat \<Rightarrow> rgb" where
  "pixelAt img x y =
     (let idx = (y * width img + x) * 4
      in (byteVal (data img ! idx), byteVal (data img ! (idx + 1)), byteVal (data img ! (idx + 2))))"

text \<open>A colour whose channels are integers in \<open>[0, 255]\<close>, as the data model of the
  specification requires of a palette entry.\<close>

definition isByteValue :: "real \<Rightarrow> bool" where
  "isByteValue v = (0 \<le> v \<and> v \<le> 255 \<and> v = of_int \<lfloor>v\<rfloor>)"

definition isByteColor :: "rgb \<Rightarrow> bool" where
  "isByteColor c = (case c of (r, g, b) \<Rightarrow> isByteValue r \<and> isByteValue g \<and> isByteValue b)"

section \<open>Bitmap encoding\<close>

text \<open>The writes of a Node \<^verbatim>\<open>Buffer\<close> that \<^verbatim>\<open>createBMP\<close> uses. A \<^verbatim>\<open>write*LE\<close> call throws a
  \<^verbatim>\<open>RangeError\<close> when the value does not fit or the bytes do not lie inside the buffer;
  \<^verbatim>\<open>buffer.write(string, offset)\<close> and an indexed store never throw.
  \<^verbatim>\<open>Buffer.alloc(n)\<close> is the list of \<open>n\<close> zero bytes; the largest length that the
  engine allocates depends on its version and is not represented.\<close>

definition bufferWrite :: "byte list \<Rightarrow> nat \<Rightarrow> byte list \<Rightarrow> byte list" where
  "bufferWrite bytes off buf = fold (\<lambda>k b. b[off + k := bytes ! k]) [0..<length bytes] buf"

definition writeUInt32LE :: "nat \<Rightarrow> nat \<Rightarrow> byte list \<Rightarrow> js_error + byte list" where
  "writeUInt32LE v off buf =
     (if v < 2 ^ 32 \<and> off + 4 \<le> length buf
      then Inr (buf[off := of_nat v, off + 1 := of_nat (v div 2 ^ 8),
                    off + 2 := of_nat (v div 2 ^ 16), off + 3 := of_nat (v div 2 ^ 24)])
      else Inl RangeError)"

definition writeInt32LE :: "nat \<Rightarrow> nat \<Rightarrow> byte list \<Rightarrow> js_error + byte list" where
  "writeInt32LE v off buf =
     (if v < 2 ^ 31 \<and> off + 4 \<le> length buf
      then Inr (buf[off := of_nat v, off + 1 := of_nat (v div 2 ^ 8),
                    off + 2 := of_nat (v div 2 ^ 16), off + 3 := of_nat (v div 2 ^ 24)])
      else Inl RangeError)"

definition writeUInt16LE :: "nat \<Rightarrow> nat \<Rightarrow> byte list \<Rightarrow> js_error + byte list" where
  "writeUInt16LE v off buf =
     (if v < 2 ^ 16 \<and> off + 2 \<le> length buf
      then Inr (buf[off := of_nat v, off + 1 := of_nat (v div 2 ^ 8)])
      else Inl RangeError)"

text \<open>The reads \<^verbatim>\<open>readUInt32LE\<close>, \<^verbatim>\<open>readInt32LE\<close> and \<^verbatim>\<open>readUInt16LE\<close>, in which the tests of the
  repository read back the header fields.\<close>

definition readUInt32LE :: "byte list \<Rightarrow> nat \<Rightarrow> nat" where
  "readUInt32LE buf off =
     unat (buf ! off) + unat (buf ! (off + 1)) * 2 ^ 8 + unat (buf ! (off + 2)) * 2 ^ 16
       + unat (buf ! (off + 3)) * 2 ^ 24"

definition readInt32LE :: "byte list \<Rightarrow> nat \<Rightarrow> int" where
  "readInt32LE buf off =
     (let u = int (readUInt32LE buf off) in if u < 2 ^ 31 then u else u - 2 ^ 32)"

definition readUInt16LE :: "byte list \<Rightarrow> nat \<Rightarrow> nat" where
  "readUInt16LE buf off = unat (buf ! off) + unat (buf ! (off + 1)) * 2 ^ 8"

text \<open>The body of the loop over \<open>x\<close>, the body of the padding loop and the body of the
  loop over \<open>y\<close>, on the buffer and the running \<^verbatim>\<open>offset\<close>.\<close>

definition bmpPixel :: "nat \<Rightarrow> byte list \<Rightarrow> nat \<Rightarrow> nat \<Rightarrow> byte list \<times> nat \<Rightarrow> byte list \<times> nat" where
  "bmpPixel w d y x st =
     (case st of (buffer, offset) \<Rightarrow>
        (let srcIdx = (y * w + x) * 4;
             buffer = buffer[offset := d ! (srcIdx + 2)];
             offset = offset + 1;
             buffer = buffer[offset := d ! (srcIdx + 1)];
             offset = offset + 1;
             buffer = buffer[offset := d ! srcIdx];
             offset = offset + 1
         in (buffer, offset)))"

definition bmpPad :: "nat \<Rightarrow> byte list \<times> nat \<Rightarrow> byte list \<times> nat" where
  "bmpPad p st = (case st of (buffer, offset) \<Rightarrow> (buffer[offset := 0], offset + 1))"

definition bmpRow :: "nat \<Rightarrow> nat \<Rightarrow> byte list \<Rightarrow> nat \<Rightarrow> byte list \<times> nat \<Rightarrow> byte list \<times> nat" where
  "bmpRow w rowSize d y st =
     (let st = fold (bmpPixel w d y) [0..<w] st;
          padding = rowSize - w * 3
      in fold bmpPad [0..<padding] st)"

definition createBMP :: "imageData \<Rightarrow> js_error + byte list" where
  "createBMP img =
     (let w = width img; h = height img; d = data img;
          rowSize = nat \<lceil>real (w * 3) / 4\<rceil> * 4;
          pixelDataSize = rowSize * h;
          fileSize = 54 + pixelDataSize;
          buffer = replicate fileSize 0
      in thenE (Inr (bufferWrite [0x42, 0x4D] 0 buffer)) (\<lambda>buffer.
         thenE (writeUInt32LE fileSize 2 buffer) (\<lambda>buffer.
         thenE (writeUInt32LE 0 6 buffer) (\<lambda>buffer.
         thenE (writeUInt32LE 54 10 buffer) (\<lambda>buffer.
         thenE (writeUInt32LE 40 14 buffer) (\<lambda>buffer.
         thenE (writeInt32LE w 18 buffer) (\<lambda>buffer.
         thenE (writeInt32LE h 22 buffer) (\<lambda>buffer.
         thenE (writeUInt16LE 1 26 buffer) (\<lambda>buffer.
         thenE (writeUInt16LE 24 28 buffer) (\<lambda>buffer.
         thenE (writeUInt32LE 0 30 buffer) (\<lambda>buffer.
         thenE (writeUInt32LE pixelDataSize 34 buffer) (\<lambda>buffer.
         thenE (writeInt32LE 2835 38 buffer) (\<lambda>buffer.
         thenE (writeInt32LE 2835 42 buffer) (\<lambda>buffer.
         thenE (writeUInt32LE 0 46 buffer) (\<lambda>buffer.
         thenE (writeUInt32LE 0 50 buffer) (\<lambda>buffer.
         Inr (fst (fold (bmpRow w rowSize d) (rev [0..<h]) (buffer, 54)))))))))))))))))))"

text \<open>The relation between the states of two dithering runs over the same image with the
  same dither palette and two output palettes, after \<open>q\<close> pixels in raster order: the
  error buffers are equal, the pixels not yet visited are equal, and every visited pixel
  holds the entries of the two output palettes at one common active slot.\<close>

definition pixelOf :: "byte list \<Rightarrow> nat \<Rightarrow> rgb" where
  "pixelOf d p = (byteVal (d ! (4 * p)), byteVal (d ! (4 * p + 1)), byteVal (d ! (4 * p + 2)))"

definition ditherRelated ::
  "nat \<Rightarrow> rgb list \<Rightarrow> rgb list \<Rightarrow> nat \<Rightarrow> byte list \<times> real list \<Rightarrow> byte list \<times> real list \<Rightarrow> bool" where
  "ditherRelated n outA outB q sA sB =
     (case sA of (dA, eA) \<Rightarrow> case sB of (dB, eB) \<Rightarrow>
        eA = eB \<and> length dA = n \<and> length dB = n
        \<and> (\<forall>i. 4 * q \<le> i \<and> i < n \<longrightarrow> dA ! i = dB ! i)
        \<and> (\<forall>p<q. \<exists>k\<in>activeSlots. pixelOf dA p = outA ! k \<and> pixelOf dB p = outB ! k))"

text \<open>The file that the specification describes, as a list of bytes: the 54-byte header
  followed by the rows, bottom row first, each row the pixels in B, G, R order and then
  zeros up to the row size. \<open>createBMP\<close> is compared with it below.\<close>

definition le16 :: "nat \<Rightarrow> byte list" where
  "le16 v = [of_nat v, of_nat (v div 2 ^ 8)]"

definition le32 :: "nat \<Rightarrow> byte list" where
  "le32 v = [of_nat v, of_nat (v div 2 ^ 8), of_nat (v div 2 ^ 16), of_nat (v div 2 ^ 24)]"

definition bmpRowSize :: "nat \<Rightarrow> nat" where
  "bmpRowSize w = nat \<lceil>real (w * 3) / 4\<rceil> * 4"

definition bmpHeader :: "nat \<Rightarrow> nat \<Rightarrow> byte list" where
  "bmpHeader w h =
     [0x42, 0x4D] @ le32 (54 + bmpRowSize w * h) @ le32 0 @ le32 54
     @ le32 40 @ le32 w @ le32 h @ le16 1 @ le16 24 @ le32 0 @ le32 (bmpRowSize w * h)
     @ le32 2835 @ le32 2835 @ le32 0 @ le32 0"

definition bmpRowBytes :: "nat \<Rightarrow> byte list \<Rightarrow> nat \<Rightarrow> byte list" where
  "bmpRowBytes w d y =
     concat (map (\<lambda>x. [d ! ((y * w + x) * 4 + 2), d ! ((y * w + x) * 4 + 1), d ! ((y * w + x) * 4)])
               [0..<w])
     @ replicate (bmpRowSize w - w * 3) 0"

definition bmpFile :: "imageData \<Rightarrow> byte list" where
  "bmpFile img =
     bmpHeader (width img) (height img)
     @ concat (map (bmpRowBytes (width img) (data img)) (rev [0..<height img]))"

section \<open>The pipeline entry point\<close>

text \<open>
  A canvas is modelled by what \<^verbatim>\<open>getImageData(0, 0, width, height)\<close> returns for it. The
  drawing operations of the canvas API are parameters: \<open>drawRotated canvas\<close> and
  \<open>drawCover canvas outputWidth outputHeight\<close> give the bytes that the rotated and the
  resized canvas hold. Their dimensions are the ones \<^verbatim>\<open>rotate90Clockwise\<close> and
  \<^verbatim>\<open>resizeImageCover\<close> create the new canvas with.
\<close>

definition rotate90Clockwise :: "(imageData \<Rightarrow> nat \<Rightarrow> byte) \<Rightarrow> imageData \<Rightarrow> imageData" where
  "rotate90Clockwise drawRotated canvas =
     \<lparr>width = height canvas, height = width canvas,
      data = map (drawRotated canvas) [0..<4 * height canvas * width canvas]\<rparr>"

definition resizeImageCover ::
  "(imageData \<Rightarrow> nat \<Rightarrow> nat \<Rightarrow> nat \<Rightarrow> byte) \<Rightarrow> imageData \<Rightarrow> nat \<Rightarrow> nat \<Rightarrow> imageData" where
  "resizeImageCover drawCover sourceCanvas outputWidth outputHeight =
     \<lparr>width = outputWidth, height = outputHeight,
      data = map (drawCover sourceCanvas outputWidth outputHeight)
               [0..<4 * outputWidth * outputHeight]\<rparr>"

definition DEFAULT_DISPLAY_WIDTH :: nat where
  "DEFAULT_DISPLAY_WIDTH = 800"

definition DEFAULT_DISPLAY_HEIGHT :: nat where
  "DEFAULT_DISPLAY_HEIGHT = 480"

text \<open>The options of \<^verbatim>\<open>processImage\<close> after destructuring, that is with the defaults filled
  in; \<open>defaultOptions\<close> is the result for \<^verbatim>\<open>{}\<close>. The options \<^verbatim>\<open>verbose\<close> and
  \<^verbatim>\<open>createCanvas\<close> only affect logging and the way a canvas is allocated.\<close>

record processOptions =
  displayWidth :: nat
  displayHeight :: nat
  palette :: palettePair
  params :: processingParams
  skipRotation :: bool
  skipDithering :: bool
  usePerceivedOutput :: bool

definition defaultOptions :: processOptions where
  "defaultOptions =
     \<lparr>displayWidth = DEFAULT_DISPLAY_WIDTH, displayHeight = DEFAULT_DISPLAY_HEIGHT,
      palette = SPECTRA6, params = getDefaultParams,
      skipRotation = False, skipDithering = False, usePerceivedOutput = False\<rparr>"

text \<open>The dimensions \<^verbatim>\<open>finalWidth\<close> and \<^verbatim>\<open>finalHeight\<close> that \<^verbatim>\<open>processImage\<close> computes.\<close>

definition finalDimensions :: "imageData \<Rightarrow> processOptions \<Rightarrow> nat \<times> nat" where
  "finalDimensions source options =
     (let isPortrait = height source > width source;
          displayIsLandscape = displayWidth options > displayHeight options
      in if isPortrait \<and> skipRotation options \<and> displayIsLandscape
         then (displayHeight options, displayWidth options)
         else (displayWidth options, displayHeight options))"

text \<open>The part of \<^verbatim>\<open>processImage\<close> between saving the original canvas and
  \<^verbatim>\<open>getImageData\<close>: the rotation of a portrait canvas and the resize to the final
  dimensions.\<close>

definition orientAndResize ::
  "(imageData \<Rightarrow> nat \<Rightarrow> byte) \<Rightarrow> (imageData \<Rightarrow> nat \<Rightarrow> nat \<Rightarrow> nat \<Rightarrow> byte)
     \<Rightarrow> imageData \<Rightarrow> processOptions \<Rightarrow> imageData" where
  "orientAndResize drawRotated drawCover source options =
     (let canvas = source;
          isPortrait = height canvas > width canvas;
          canvas = (if isPortrait \<and> \<not> skipRotation options
                    then rotate90Clockwise drawRotated canvas else canvas)
      in case finalDimensions source options of (finalWidth, finalHeight) \<Rightarrow>
           if width canvas \<noteq> finalWidth \<or> height canvas \<noteq> finalHeight
           then resizeImageCover drawCover canvas finalWidth finalHeight
           else canvas)"

text \<open>\<^verbatim>\<open>processImage\<close> returns the processed canvas and the copy of the source canvas that it
  made at the start.\<close>

definition processImage ::
  "(imageData \<Rightarrow> nat \<Rightarrow> byte) \<Rightarrow> (imageData \<Rightarrow> nat \<Rightarrow> nat \<Rightarrow> nat \<Rightarrow> byte)
     \<Rightarrow> imageData \<Rightarrow> processOptions \<Rightarrow> js_error + imageData \<times> imageData" where
  "processImage drawRotated drawCover source options =
     (let originalCanvas = source;
          canvas = orientAndResize drawRotated drawCover source options;
          img = preprocessImage canvas (params options) (Some (perceived (palette options)))
      in if \<not> skipDithering options
         then (let outputPalette = (if usePerceivedOutput options
                                    then perceived (palette options)
                                    else theoretical (palette options));
                   outputPaletteArray = paletteToArray outputPalette;
                   ditherPaletteArray = paletteToArray (perceived (palette options))
               in thenE (applyErrorDiffusionDither img
                           (orDefault (colorMethod (params options)) ''rgb'')
                           outputPaletteArray ditherPaletteArray
                           (orDefault (ditherAlgorithm (params options)) ''floyd-steinberg''))
                    (\<lambda>img. Inr (img, originalCanvas)))
         else Inr (img, originalCanvas))"

section \<open>Theorems: colour matching\<close>

lemma fold_upt_invariant:
  assumes "P 0 s"
    and "\<And>i t. i < n \<Longrightarrow> P i t \<Longrightarrow> P (Suc i) (f i t)"
  shows "P n (fold f [0..<n] s)"
  using assms
proof (induction n)
  case 0
  then show ?case by simp
next
  case (Suc n)
  have "P n (fold f [0..<n] s)"
    by (rule Suc.IH) (use Suc.prems in auto)
  then show ?case
    using Suc.prems(2)[of n] by simp
qed

lemma closer_scan:
  assumes "0 < n"
  shows "case fold (closerStep d) [0..<n] (None, 1) of (m, c) \<Rightarrow>
           m = Some (d c) \<and> c < n \<and> c \<noteq> 4 \<and>
           (\<forall>i<n. i \<noteq> 4 \<longrightarrow> d c \<le> d i) \<and> (\<forall>i<c. i \<noteq> 4 \<longrightarrow> d c < d i)"
proof -
  let ?P = "\<lambda>k st. (k = 0 \<and> st = (None, 1)) \<or>
     (0 < k \<and> (case st of (m, c) \<Rightarrow>
           m = Some (d c) \<and> c < k \<and> c \<noteq> 4 \<and>
           (\<forall>i<k. i \<noteq> 4 \<longrightarrow> d c \<le> d i) \<and> (\<forall>i<c. i \<noteq> 4 \<longrightarrow> d c < d i)))"
  have "?P n (fold (closerStep d) [0..<n] (None, 1))"
  proof (rule fold_upt_invariant)
    show "?P 0 (None, 1)" by simp
  next
    fix i t
    assume i: "i < n" and t: "?P i t"
    obtain m c where mc: "t = (m, c)" by (cases t)
    show "?P (Suc i) (closerStep d i t)"
    proof (cases "i = 0")
      case True
      with t mc show ?thesis by (simp add: closerStep_def)
    next
      case False
      with t mc have inv: "m = Some (d c)" "c < i" "c \<noteq> 4"
        "\<forall>j<i. j \<noteq> 4 \<longrightarrow> d c \<le> d j" "\<forall>j<c. j \<noteq> 4 \<longrightarrow> d c < d j"
        by auto
      show ?thesis
      proof (cases "i = 4")
        case True
        with inv mc show ?thesis
          by (auto simp: closerStep_def less_Suc_eq)
      next
        case i4: False
        show ?thesis
        proof (cases "d i < d c")
          case True
          with inv mc i4 show ?thesis
            by (force simp: closerStep_def less_Suc_eq)
        next
          case False
          with inv mc i4 show ?thesis
            by (auto simp: closerStep_def less_Suc_eq)
        qed
      qed
    qed
  qed
  with assms show ?thesis by simp
qed

lemma findClosestColorRGB_closer:
  "findClosestColorRGB r g b pal =
     snd (fold (closerStep (\<lambda>i. distRGB r g b (pal ! i))) [0..<length pal] (None, 1))"
proof -
  have "(\<lambda>i (minDist, closest).
          if i = 4 then (minDist, closest)
          else (case pal ! i of (pr, pg, pb) \<Rightarrow>
            (let dr = r - pr; dg = g - pg; db = b - pb;
                 dist = dr * dr + dg * dg + db * db
             in if lessThanMin dist minDist then (Some dist, i) else (minDist, closest))))
        = closerStep (\<lambda>i. distRGB r g b (pal ! i))"
    by (auto simp: fun_eq_iff closerStep_def distRGB_def Let_def split: prod.splits)
  then show ?thesis
    by (simp add: findClosestColorRGB_def)
qed

lemma findClosestColorLAB_closer:
  "findClosestColorLAB r g b pal palLab =
     snd (fold (closerStep (\<lambda>i. deltaE (rgbToLab r g b) (palLab ! i))) [0..<length pal] (None, 1))"
proof -
  have "(\<lambda>i (minDist, closest).
           if i = 4 then (minDist, closest)
           else (let dist = deltaE (rgbToLab r g b) (palLab ! i)
                 in if lessThanMin dist minDist then (Some dist, i) else (minDist, closest)))
        = closerStep (\<lambda>i. deltaE (rgbToLab r g b) (palLab ! i))"
    by (auto simp: fun_eq_iff closerStep_def Let_def split: prod.splits)
  then show ?thesis
    by (simp add: findClosestColorLAB_def Let_def)
qed

lemma closer_fold_cong:
  assumes "\<And>i. i < n \<Longrightarrow> i \<noteq> 4 \<Longrightarrow> d i = d' i"
  shows "fold (closerStep d) [0..<n] s = fold (closerStep d') [0..<n] s"
proof (rule fold_cong)
  fix x assume "x \<in> set [0..<n]"
  then show "closerStep d x = closerStep d' x"
    using assms by (auto simp: closerStep_def fun_eq_iff)
qed simp_all

lemma closer_seven:
  fixes d :: "nat \<Rightarrow> real"
  defines "k \<equiv> snd (fold (closerStep d) [0..<7] (None, 1))"
  shows "k \<in> activeSlots \<and> (\<forall>i\<in>activeSlots. d k \<le> d i) \<and> (\<forall>i\<in>activeSlots. i < k \<longrightarrow> d k < d i)"
proof -
  obtain m c where mc: "fold (closerStep d) [0..<7] (None, 1) = (m, c)"
    by (cases "fold (closerStep d) [0..<7] (None, 1)")
  have "case fold (closerStep d) [0..<7] (None, 1) of (m, c) \<Rightarrow>
           m = Some (d c) \<and> c < 7 \<and> c \<noteq> 4 \<and>
           (\<forall>i<7. i \<noteq> 4 \<longrightarrow> d c \<le> d i) \<and> (\<forall>i<c. i \<noteq> 4 \<longrightarrow> d c < d i)"
    by (rule closer_scan) simp
  with mc have c: "c < 7" "c \<noteq> 4" "\<forall>i<7. i \<noteq> 4 \<longrightarrow> d c \<le> d i" "\<forall>i<c. i \<noteq> 4 \<longrightarrow> d c < d i"
    by auto
  have kc: "k = c" using mc by (simp add: k_def)
  from c(1,2) have "c \<in> activeSlots" by (auto simp: activeSlots_def)
  moreover have "\<forall>i\<in>activeSlots. d c \<le> d i" using c(3) by (auto simp: activeSlots_def)
  moreover have "\<forall>i\<in>activeSlots. i < c \<longrightarrow> d c < d i" using c(4) by (auto simp: activeSlots_def)
  ultimately show ?thesis using kc by simp
qed

text \<open>
  C6. For every pixel and every 7-slot palette array (with the array of its Lab values,
  which has the same length), the search under the rgb metric and the search under the lab
  metric return a slot of \<open>{0, 1, 2, 3, 5, 6}\<close> whose distance is
  minimal among these slots and strictly smaller than that of every earlier one (the first
  minimum wins); the result does not depend on the content of slot 4; on an empty array,
  where no comparison executes, the result is slot 1.
\<close>

theorem findClosestColor_first_minimum:
  assumes "length paletteArray = 7" and "length paletteLab = 7"
  shows "(let k = findClosestColorRGB r g b paletteArray
          in k \<in> activeSlots
           \<and> (\<forall>i\<in>activeSlots. distRGB r g b (paletteArray ! k) \<le> distRGB r g b (paletteArray ! i))
           \<and> (\<forall>i\<in>activeSlots. i < k \<longrightarrow>
                 distRGB r g b (paletteArray ! k) < distRGB r g b (paletteArray ! i))
           \<and> findClosestColorRGB r g b (paletteArray[4 := c]) = k)
       \<and> (let k = findClosestColorLAB r g b paletteArray paletteLab; lab = rgbToLab r g b
          in k \<in> activeSlots
           \<and> (\<forall>i\<in>activeSlots. deltaE lab (paletteLab ! k) \<le> deltaE lab (paletteLab ! i))
           \<and> (\<forall>i\<in>activeSlots. i < k \<longrightarrow> deltaE lab (paletteLab ! k) < deltaE lab (paletteLab ! i))
           \<and> findClosestColorLAB r g b (paletteArray[4 := c]) (paletteLab[4 := l]) = k)
       \<and> findClosestColorRGB r g b [] = 1
       \<and> findClosestColorLAB r g b [] [] = 1"
proof -
  have rgb4: "findClosestColorRGB r g b (paletteArray[4 := c]) = findClosestColorRGB r g b paletteArray"
    unfolding findClosestColorRGB_closer
    by (simp add: closer_fold_cong[of _ "\<lambda>i. distRGB r g b (paletteArray[4 := c] ! i)"
          "\<lambda>i. distRGB r g b (paletteArray ! i)"])
  have lab4: "findClosestColorLAB r g b (paletteArray[4 := c]) (paletteLab[4 := l])
      = findClosestColorLAB r g b paletteArray paletteLab"
    unfolding findClosestColorLAB_closer
    by (simp add: closer_fold_cong[of _ "\<lambda>i. deltaE (rgbToLab r g b) (paletteLab[4 := l] ! i)"
          "\<lambda>i. deltaE (rgbToLab r g b) (paletteLab ! i)"])
  have e1: "findClosestColorRGB r g b [] = 1"
    by (simp add: findClosestColorRGB_def)
  have e2: "findClosestColorLAB r g b [] [] = 1"
    by (simp add: findClosestColorLAB_def)
  show ?thesis
    using closer_seven[of "\<lambda>i. distRGB r g b (paletteArray ! i)"]
      closer_seven[of "\<lambda>i. deltaE (rgbToLab r g b) (paletteLab ! i)"]
      assms rgb4 lab4 e1 e2
    by (simp add: findClosestColorRGB_closer findClosestColorLAB_closer Let_def)
qed

theorem findClosestColor_first_minimum_witness:
  "length (paletteToArray (perceived SPECTRA6)) = 7
   \<and> findClosestColorRGB 200 10 10 (paletteToArray (perceived SPECTRA6)) \<in> activeSlots
   \<and> findClosestColorLAB 200 10 10 (paletteToArray (perceived SPECTRA6))
        (map (\<lambda>(r, g, b). rgbToLab r g b) (paletteToArray (perceived SPECTRA6))) \<in> activeSlots
   \<and> findClosestColorRGB 200 10 10 ((paletteToArray (perceived SPECTRA6))[4 := (200, 10, 10)])
       = findClosestColorRGB 200 10 10 (paletteToArray (perceived SPECTRA6))"
proof -
  have len: "length (paletteToArray (perceived SPECTRA6)) = 7"
    by (simp add: paletteToArray_def)
  have lenLab: "length (map (\<lambda>(r, g, b). rgbToLab r g b) (paletteToArray (perceived SPECTRA6))) = 7"
    using len by simp
  show ?thesis
    using len findClosestColor_first_minimum[OF len lenLab, of 200 10 10 "(200, 10, 10)"]
    by (simp add: Let_def)
qed

section \<open>Theorems: palette validation\<close>

lemma foldE_unit_iff:
  "foldE (\<lambda>x _. f x) xs () = Inr () \<longleftrightarrow> (\<forall>x\<in>set xs. f x = Inr ())"
  by (induction xs) (auto split: sum.splits)

lemma channelAccepted_cases:
  "channelAccepted v \<longleftrightarrow> typeof v = ''number'' \<and> \<not> numLess v 0 \<and> \<not> numGreater v 255"
  by (cases v rule: channelAccepted.cases) auto

lemma channelAccepted_object:
  assumes "channelAccepted (getProp v k)"
  shows "truthy v \<and> typeof v = ''object''"
  using assms by (cases v) auto

lemma validateColor_iff:
  "validateColor pal name color = Inr () \<longleftrightarrow>
     truthy (getProp pal color) \<and>
     (\<forall>ch\<in>set channelNames. channelAccepted (getProp (getProp pal color) ch))"
  by (auto simp: validateColor_def Let_def channelNames_def channelAccepted_cases)

lemma validateColor_iff':
  "validateColor pal name color = Inr () \<longleftrightarrow>
     (\<forall>ch\<in>set channelNames. channelAccepted (getProp (getProp pal color) ch))"
  unfolding validateColor_iff
  using channelAccepted_object[of "getProp pal color" "''r''"]
  by (auto simp: channelNames_def)

lemma validateSinglePalette_iff:
  "validateSinglePalette pal name = Inr () \<longleftrightarrow>
     (\<forall>color\<in>set requiredColors. \<forall>ch\<in>set channelNames.
        channelAccepted (getProp (getProp pal color) ch))"
proof (cases "truthy pal \<and> typeof pal = ''object''")
  case True
  then show ?thesis
    by (simp add: validateSinglePalette_def foldE_unit_iff validateColor_iff')
next
  case False
  have "\<not> channelAccepted (getProp (getProp pal ''black'') ''r'')"
    using False channelAccepted_object[of "getProp pal ''black''" "''r''"]
      channelAccepted_object[of pal "''black''"]
    by (cases pal) auto
  then have "\<not> (\<forall>color\<in>set requiredColors. \<forall>ch\<in>set channelNames.
        channelAccepted (getProp (getProp pal color) ch))"
    by (auto simp: requiredColors_def channelNames_def)
  with False show ?thesis
    by (auto simp: validateSinglePalette_def)
qed

lemma validatePalette_iff:
  "validatePalette pp = Inr True \<longleftrightarrow> acceptedPalettePair pp"
proof -
  have single: "\<And>name. (validateSinglePalette (getProp pp name) name = Inr ()) =
     (\<forall>color\<in>set requiredColors. \<forall>ch\<in>set channelNames.
        channelAccepted (getProp (getProp (getProp pp name) color) ch))"
    by (rule validateSinglePalette_iff)
  have obj: "truthy (getProp pp name) \<and> truthy pp \<and> typeof pp = ''object''"
    if "\<forall>color\<in>set requiredColors. \<forall>ch\<in>set channelNames.
        channelAccepted (getProp (getProp (getProp pp name) color) ch)" for name
  proof -
    from that have c: "channelAccepted (getProp (getProp (getProp pp name) ''black'') ''r'')"
      by (simp add: requiredColors_def channelNames_def)
    have 1: "truthy (getProp (getProp pp name) ''black'')"
      using channelAccepted_object[OF c] by simp
    then have 2: "truthy (getProp pp name)"
      by (cases "getProp pp name") auto
    then have "truthy pp \<and> typeof pp = ''object''"
      by (cases pp) auto
    with 2 show ?thesis by simp
  qed
  show ?thesis
  proof
    assume "validatePalette pp = Inr True"
    then have "validateSinglePalette (getProp pp ''theoretical'') ''theoretical'' = Inr ()"
      and "validateSinglePalette (getProp pp ''perceived'') ''perceived'' = Inr ()"
      by (auto simp: validatePalette_def thenE_def split: if_splits sum.splits)
    then show "acceptedPalettePair pp"
      unfolding single by (simp add: acceptedPalettePair_def paletteNames_def)
  next
    assume a: "acceptedPalettePair pp"
    then have t: "\<forall>color\<in>set requiredColors. \<forall>ch\<in>set channelNames.
        channelAccepted (getProp (getProp (getProp pp ''theoretical'') color) ch)"
      and p: "\<forall>color\<in>set requiredColors. \<forall>ch\<in>set channelNames.
        channelAccepted (getProp (getProp (getProp pp ''perceived'') color) ch)"
      by (simp_all add: acceptedPalettePair_def paletteNames_def)
    from t p show "validatePalette pp = Inr True"
      using obj[OF t] obj[OF p] single[of "''theoretical''"] single[of "''perceived''"]
      by (simp add: validatePalette_def thenE_def)
  qed
qed

lemma validatePalette_never_false: "validatePalette pp \<noteq> Inr False"
  by (auto simp: validatePalette_def thenE_def split: sum.splits)



lemma getProp_JObj_map:
  "k \<in> set ks \<Longrightarrow> getProp (JObj (map (\<lambda>k. (k, g k)) ks)) k = g k"
  by (simp add: map_of_map_restrict)

lemma getProp_colorObject:
  "ch \<in> set channelNames \<Longrightarrow> getProp (colorObject f) ch = f ch"
  unfolding colorObject_def by (rule getProp_JObj_map)

lemma getProp_paletteObject:
  "color \<in> set requiredColors \<Longrightarrow> getProp (paletteObject f) color = colorObject (f color)"
  unfolding paletteObject_def by (rule getProp_JObj_map)

lemma getProp_palettePairObject:
  assumes "name \<in> set paletteNames" "color \<in> set requiredColors" "ch \<in> set channelNames"
  shows "getProp (getProp (getProp (palettePairObject f) name) color) ch = f name color ch"
proof -
  have "getProp (palettePairObject f) name = paletteObject (f name)"
    unfolding palettePairObject_def using assms(1) by (rule getProp_JObj_map)
  with assms show ?thesis
    by (simp add: getProp_paletteObject getProp_colorObject)
qed

lemma acceptedPalettePair_object:
  "acceptedPalettePair (palettePairObject f) \<longleftrightarrow>
     (\<forall>name \<in> set paletteNames. \<forall>color \<in> set requiredColors. \<forall>ch \<in> set channelNames.
        channelAccepted (f name color ch))"
  by (simp add: acceptedPalettePair_def getProp_palettePairObject)

lemma validPalettePair_object:
  "validPalettePair (palettePairObject f) \<longleftrightarrow>
     (\<forall>name \<in> set paletteNames. \<forall>color \<in> set requiredColors. \<forall>ch \<in> set channelNames.
        channelInRange (f name color ch))"
  by (simp add: validPalettePair_def getProp_palettePairObject)

lemma channelInRange_accepted: "channelInRange v \<Longrightarrow> channelAccepted v"
  by (cases v rule: channelAccepted.cases) auto

lemma channelAccepted_iff: "channelAccepted v \<longleftrightarrow> channelInRange v \<or> v = JNum NaN"
  by (cases v rule: channelAccepted.cases) auto

text \<open>
  C10. A palette pair in which any channels are \<^verbatim>\<open>NaN\<close>, every other channel being a
  number in \<open>[0, 255]\<close>, passes \<^verbatim>\<open>validatePalette\<close>: no error is thrown and \<^verbatim>\<open>true\<close> is
  returned, although \<^verbatim>\<open>NaN\<close> is not a number in \<open>[0, 255]\<close>.
\<close>

theorem validatePalette_accepts_NaN:
  assumes "\<forall>name color ch. channelInRange (f name color ch)"
  shows "validatePalette
           (palettePairObject (\<lambda>name color ch. if isNaN name color ch then JNum NaN else f name color ch))
         = Inr True
       \<and> \<not> channelInRange (JNum NaN)"
  using assms
  by (simp add: validatePalette_iff acceptedPalettePair_object channelInRange_accepted)

theorem validatePalette_accepts_NaN_witness:
  "(\<forall>name color ch. channelInRange (toChannels SPECTRA6 name color ch))
   \<and> validatePalette
       (palettePairObject (\<lambda>name color ch.
          if name = ''theoretical'' \<and> color = ''black'' \<and> ch = ''r'' then JNum NaN
          else toChannels SPECTRA6 name color ch))
     = Inr True"
proof -
  have r: "\<forall>name color ch. channelInRange (toChannels SPECTRA6 name color ch)"
    by (simp add: toChannels_def SPECTRA6_def Let_def)
  show ?thesis
    using r validatePalette_accepts_NaN[OF r,
        of "\<lambda>name color ch. name = ''theoretical'' \<and> color = ''black'' \<and> ch = ''r''"]
    by blast
qed

text \<open>Without \<^verbatim>\<open>NaN\<close> channels the validator accepts exactly the valid palette pairs.\<close>

lemma validatePalette_iff_valid:
  assumes "\<forall>name \<in> set paletteNames. \<forall>color \<in> set requiredColors. \<forall>ch \<in> set channelNames.
        getProp (getProp (getProp pp name) color) ch \<noteq> JNum NaN"
  shows "(\<exists>e. validatePalette pp = Inl e) \<longleftrightarrow> \<not> validPalettePair pp"
proof -
  have "acceptedPalettePair pp \<longleftrightarrow> validPalettePair pp"
    using assms unfolding acceptedPalettePair_def validPalettePair_def channelAccepted_iff
    by blast
  moreover have "(\<exists>e. validatePalette pp = Inl e) \<longleftrightarrow> validatePalette pp \<noteq> Inr True"
    using validatePalette_never_false[of pp]
    by (cases "validatePalette pp") auto
  ultimately show ?thesis
    by (simp add: validatePalette_iff)
qed

text \<open>
  C7 at the palette pair of SPECTRA6 with \<^verbatim>\<open>theoretical.black.r = NaN\<close>: the pair is not
  valid, since that channel is not a number in \<open>[0, 255]\<close>, and \<^verbatim>\<open>validatePalette\<close>
  returns \<^verbatim>\<open>true\<close> instead of throwing.
\<close>

theorem validatePalette_NaN_not_rejected:
  "(let pp = palettePairObject (\<lambda>name color ch.
          if name = ''theoretical'' \<and> color = ''black'' \<and> ch = ''r'' then JNum NaN
          else toChannels SPECTRA6 name color ch)
    in \<not> validPalettePair pp \<and> validatePalette pp = Inr True)"
proof -
  have "\<And>name color ch. channelAccepted (if name = ''theoretical'' \<and> color = ''black'' \<and> ch = ''r''
      then JNum NaN else toChannels SPECTRA6 name color ch)"
    by (simp add: toChannels_def SPECTRA6_def Let_def)
  then show ?thesis
    by (simp add: Let_def validatePalette_iff acceptedPalettePair_object validPalettePair_object
        paletteNames_def requiredColors_def channelNames_def)
qed

theorem validatePalette_NaN_not_rejected_witness:
  "validatePalette
     (palettePairObject (\<lambda>name color ch.
        if name = ''theoretical'' \<and> color = ''black'' \<and> ch = ''r'' then JNum NaN
        else toChannels SPECTRA6 name color ch))
   = Inr True"
  using validatePalette_NaN_not_rejected by (simp add: Let_def)

section \<open>Theorems: tone adjustment\<close>

lemma rgbToLab_black: "rgbToLab 0 0 0 = (0, 0, 0)"
  by (simp add: rgbToLab_def rgbToXyz_def xyzToLab_def Let_def)

lemma rgbToLab_2: "fst (rgbToLab 2 2 2) = 2258230225823 / 4118250000000"
  by (simp add: rgbToLab_def rgbToXyz_def xyzToLab_def Let_def)

lemma Math_round_2: "3 / 2 \<le> v \<Longrightarrow> v < 5 / 2 \<Longrightarrow> Math_round v = 2"
  unfolding Math_round_def by (simp add: floor_eq_iff)

lemma labToXyz_2:
  "labToXyz (2258230225823 / 4118250000000) 0 0 =
     (55910005591 / 969000000000, 10000001 / 164730000, 1088830108883 / 16473000000000)"
  by (simp add: labToXyz_def Let_def)

lemma xyzToRgb_linear:
  assumes "r = x / 100 * 3.2404542 + y / 100 * (- 1.5371385) + z / 100 * (- 0.4985314)"
    and "g = x / 100 * (- 0.969266) + y / 100 * 1.8760108 + z / 100 * 0.041556"
    and "b = x / 100 * 0.0556434 + y / 100 * (- 0.2040259) + z / 100 * 1.0572252"
    and "r \<le> 0.0031308" "g \<le> 0.0031308" "b \<le> 0.0031308"
  shows "xyzToRgb x y z = (max 0 (min 255 (Math_round (12.92 * r * 255))),
          max 0 (min 255 (Math_round (12.92 * g * 255))),
          max 0 (min 255 (Math_round (12.92 * b * 255))))"
  unfolding xyzToRgb_def Let_def assms(1-3)[symmetric]
  using assms(4-6) by simp

lemma labToRgb_2: "labToRgb (2258230225823 / 4118250000000) 0 0 = (2, 2, 2)"
proof -
  have "xyzToRgb (55910005591 / 969000000000) (10000001 / 164730000)
          (1088830108883 / 16473000000000)
        = (max 0 (min 255 (Math_round (12.92 * (2500000398030014803 / 4118250000000000000000) * 255))),
           max 0 (min 255 (Math_round (12.92 * (500000032229998223 / 823650000000000000000) * 255))),
           max 0 (min 255 (Math_round (12.92 * (5000000484569998457 / 8236500000000000000000) * 255))))"
    by (rule xyzToRgb_linear) simp_all
  also have "\<dots> = (2, 2, 2)"
    by (simp add: Math_round_2)
  finally show ?thesis
    by (simp add: labToRgb_def labToXyz_2)
qed

lemma toUint8Clamp_2: "toUint8Clamp 2 = 2"
  by (simp add: toUint8Clamp_def Let_def)

lemma byteVal_0: "byteVal 0 = 0"
  by (simp add: byteVal_def)

lemma pixelOffsets_one_pixel: "pixelOffsets (Suc (Suc (Suc (Suc 0)))) = [0]"
  by (simp add: pixelOffsets_def)

lemma preprocessImage_default_black_pixel:
  "preprocessImage \<lparr>width = 1, height = 1, data = [0, 0, 0, 255]\<rparr> getDefaultParams
      (Some (perceived SPECTRA6))
   = \<lparr>width = 1, height = 1, data = [2, 2, 2, 255]\<rparr>"
proof -
  obtain bl ba bb where b: "rgbToLab 2 2 2 = (bl, ba, bb)"
    by (cases "rgbToLab 2 2 2")
  with rgbToLab_2 have bl: "bl = 2258230225823 / 4118250000000" by simp
  obtain wl wa wb where w: "rgbToLab 190 200 200 = (wl, wa, wb)"
    by (cases "rgbToLab 190 200 200")
  have "preprocessImage \<lparr>width = 1, height = 1, data = [0, 0, 0, 255]\<rparr> getDefaultParams
      (Some (perceived SPECTRA6))
    = \<lparr>width = 1, height = 1, data = fold
        (\<lambda>i d.
           (let r = byteVal (d ! i); g = byteVal (d ! (i + 1));
                b = byteVal (d ! (i + 2))
            in case rgbToLab r g b of (l, a, bLab) \<Rightarrow>
                 (let compressedL = bl + (l / 100) * (wl - bl)
                  in case labToRgb compressedL a bLab of (newR, newG, newB) \<Rightarrow>
                       d[i := toUint8Clamp newR,
                         i + 1 := toUint8Clamp newG,
                         i + 2 := toUint8Clamp newB]))) [0] [0, 0, 0, 255]\<rparr>"
    unfolding preprocessImage_def getDefaultParams_def SPECTRA6_def
    by (simp add: b w pixelOffsets_one_pixel)
  also have "\<dots> = \<lparr>width = 1, height = 1, data = [2, 2, 2, 255]\<rparr>"
    by (simp add: byteVal_0 rgbToLab_black bl labToRgb_2 toUint8Clamp_2)
  finally show ?thesis .
qed



text \<open>
  C5 fails as stated: \<^verbatim>\<open>getDefaultParams\<close> sets \<^verbatim>\<open>compressDynamicRange: true\<close>, so with a
  perceived palette (which \<^verbatim>\<open>processImage\<close> always passes) the fourth stage rewrites the
  pixels. With the default parameters and the perceived palette of SPECTRA6, a black pixel
  becomes \<open>(2, 2, 2)\<close>.
\<close>

theorem preprocessImage_default_counterexample:
  "preprocessImage \<lparr>width = 1, height = 1, data = [0, 0, 0, 255]\<rparr> getDefaultParams
      (Some (perceived SPECTRA6))
   \<noteq> \<lparr>width = 1, height = 1, data = [0, 0, 0, 255]\<rparr>"
  unfolding preprocessImage_default_black_pixel by simp

text \<open>
  C5, amended. With exposure 1.0, saturation 1.0, tone mode contrast and contrast 1.0 the
  tone-adjustment stage leaves the image unchanged, provided that dynamic-range compression
  is off or no perceived palette is passed.
\<close>

theorem preprocessImage_identity:
  assumes "exposure ps = Some 1" and "saturation ps = 1"
    and "toneMode ps = Some ''contrast''" and "contrast ps = Some 1"
    and "\<not> compressDynamicRange ps \<or> perceivedPalette = None"
  shows "preprocessImage img ps perceivedPalette = img"
  using assms by (auto simp: preprocessImage_def)

theorem preprocessImage_identity_witness:
  "preprocessImage \<lparr>width = 1, height = 1, data = [0, 0, 0, 255]\<rparr>
      (getDefaultParams\<lparr>compressDynamicRange := False\<rparr>) (Some (perceived SPECTRA6))
     = \<lparr>width = 1, height = 1, data = [0, 0, 0, 255]\<rparr>
   \<and> preprocessImage \<lparr>width = 1, height = 1, data = [0, 0, 0, 255]\<rparr> getDefaultParams None
     = \<lparr>width = 1, height = 1, data = [0, 0, 0, 255]\<rparr>"
  using preprocessImage_identity[of "getDefaultParams\<lparr>compressDynamicRange := False\<rparr>"
      "Some (perceived SPECTRA6)" "\<lparr>width = 1, height = 1, data = [0, 0, 0, 255]\<rparr>"]
    preprocessImage_identity[of getDefaultParams None
      "\<lparr>width = 1, height = 1, data = [0, 0, 0, 255]\<rparr>"]
  by (simp add: getDefaultParams_def)




section \<open>Theorems: dithering\<close>

lemma foldE_append: "foldE f (xs @ ys) s = thenE (foldE f xs s) (foldE f ys)"
  by (induction xs arbitrary: s) (auto simp: thenE_def split: sum.splits)

lemma foldE_upt_related:
  assumes "R 0 s t"
    and "\<And>i s t. i < n \<Longrightarrow> R i s t \<Longrightarrow>
           \<exists>s' t'. f i s = Inr s' \<and> g i t = Inr t' \<and> R (Suc i) s' t'"
  shows "\<exists>s' t'. foldE f [0..<n] s = Inr s' \<and> foldE g [0..<n] t = Inr t' \<and> R n s' t'"
  using assms
proof (induction n)
  case 0
  then show ?case by simp
next
  case (Suc n)
  have "\<exists>s' t'. foldE f [0..<n] s = Inr s' \<and> foldE g [0..<n] t = Inr t' \<and> R n s' t'"
    by (rule Suc.IH) (use Suc.prems in auto)
  then obtain s' t' where st: "foldE f [0..<n] s = Inr s'" "foldE g [0..<n] t = Inr t'" "R n s' t'"
    by blast
  from Suc.prems(2)[of n s' t'] st(3)
  obtain s'' t'' where "f n s' = Inr s''" "g n t' = Inr t''" "R (Suc n) s'' t''"
    by auto
  with st show ?case
    by (simp add: foldE_append thenE_def)
qed

lemma byteVal_toUint8Clamp:
  assumes "isByteValue v"
  shows "byteVal (toUint8Clamp v) = v"
proof -
  from assms obtain k :: int where k: "v = of_int k" "0 \<le> k" "k \<le> 255"
    unfolding isByteValue_def by (metis floor_of_int of_int_0_le_iff of_int_le_iff of_int_numeral)
  have u: "unat (word_of_int k :: byte) = nat k"
    using k(2,3) by (simp add: unat_eq_nat_uint uint_word_of_int take_bit_int_eq_self)
  show ?thesis
  proof (cases "k = 0 \<or> k = 255")
    case True
    then show ?thesis using k by (auto simp: toUint8Clamp_def byteVal_def)
  next
    case False
    with k have "0 < k" "k < 255" by auto
    then show ?thesis
      using k u by (simp add: toUint8Clamp_def byteVal_def Let_def)
  qed
qed

lemma findClosestColor_active:
  assumes "length dp = 7"
  shows "findClosestColor r g b method dp dpLab \<in> activeSlots"
  using closer_seven[of "\<lambda>i. distRGB r g b (dp ! i)"]
    closer_seven[of "\<lambda>i. deltaE (rgbToLab r g b) (dpLab ! i)"] assms
  by (simp add: findClosestColor_def findClosestColorRGB_closer findClosestColorLAB_closer)

lemma activeSlots_less: "k \<in> activeSlots \<Longrightarrow> k < 7"
  by (auto simp: activeSlots_def)

lemma pixel_index_bound:
  fixes x y w h :: nat
  assumes "y < h" "x < w"
  shows "y * w + x < w * h"
proof -
  have "y * w + x < Suc y * w" using assms(2) by simp
  also have "\<dots> \<le> h * w" using assms(1) by (intro mult_le_mono1) simp
  finally show ?thesis by (simp add: mult.commute)
qed

lemma ditherPixel_Some:
  assumes "length out = 7" "length dp = 7" "q = y * w + x"
  shows "ditherPixel w h method out dp dpLab (Some m) y x (d, errors) =
     (let oldR = max 0 (min 255 (byteVal (d ! (4 * q)) + errors ! (3 * q)));
          oldG = max 0 (min 255 (byteVal (d ! (4 * q + 1)) + errors ! (3 * q + 1)));
          oldB = max 0 (min 255 (byteVal (d ! (4 * q + 2)) + errors ! (3 * q + 2)));
          k = findClosestColor oldR oldG oldB method dp dpLab
      in case out ! k of (newR, newG, newB) \<Rightarrow>
         case dp ! k of (ditherR, ditherG, ditherB) \<Rightarrow>
           Inr (d[4 * q := toUint8Clamp newR, 4 * q + 1 := toUint8Clamp newG,
                  4 * q + 2 := toUint8Clamp newB],
                fold (diffuse w h x y (oldR - ditherR) (oldG - ditherG) (oldB - ditherB)) m errors))"
proof -
  have "\<not> 7 \<le> findClosestColor r g b method dp dpLab" for r g b
    using findClosestColor_active[OF assms(2), of r g b "method" dpLab] activeSlots_less
    by (simp add: not_le)
  then show ?thesis
    using assms by (simp add: ditherPixel_def Let_def mult.commute split: prod.splits)
qed

lemma pixelOf_update:
  assumes "4 * q + 2 < length d"
  shows "pixelOf (d[4 * q := a, 4 * q + 1 := b, 4 * q + 2 := c]) p =
           (if p = q then (byteVal a, byteVal b, byteVal c) else pixelOf d p)"
proof (cases "p = q")
  case True
  with assms show ?thesis by (simp add: pixelOf_def)
next
  case False
  then have "4 * p \<noteq> 4 * q" "4 * p \<noteq> 4 * q + 1" "4 * p \<noteq> 4 * q + 2"
    "4 * p + 1 \<noteq> 4 * q" "4 * p + 1 \<noteq> 4 * q + 1" "4 * p + 1 \<noteq> 4 * q + 2"
    "4 * p + 2 \<noteq> 4 * q" "4 * p + 2 \<noteq> 4 * q + 1" "4 * p + 2 \<noteq> 4 * q + 2"
    by presburger+
  with False show ?thesis
    by (simp add: pixelOf_def del: One_nat_def)
qed

lemma isByteColor_store:
  assumes "isByteColor c" "c = (r, g, b)"
  shows "(byteVal (toUint8Clamp r), byteVal (toUint8Clamp g), byteVal (toUint8Clamp b)) = c"
  using assms by (simp add: isByteColor_def byteVal_toUint8Clamp)

lemma ditherPixel_related:
  assumes len: "length outA = 7" "length outB = 7" "length dp = 7"
    and validA: "\<forall>k\<in>activeSlots. isByteColor (outA ! k)"
    and validB: "\<forall>k\<in>activeSlots. isByteColor (outB ! k)"
    and xy: "y < h" "x < w"
    and rel: "ditherRelated (4 * w * h) outA outB (y * w + x) sA sB"
  shows "\<exists>sA' sB'. ditherPixel w h method outA dp dpLab (Some m) y x sA = Inr sA'
       \<and> ditherPixel w h method outB dp dpLab (Some m) y x sB = Inr sB'
       \<and> ditherRelated (4 * w * h) outA outB (Suc (y * w + x)) sA' sB'"
proof -
  obtain dA eA dB eB where s: "sA = (dA, eA)" "sB = (dB, eB)"
    by (cases sA, cases sB) auto
  define q where "q = y * w + x"
  from rel s have e: "eB = eA" and lenA: "length dA = 4 * w * h" and lenB: "length dB = 4 * w * h"
    and same: "\<And>i. 4 * q \<le> i \<Longrightarrow> i < 4 * w * h \<Longrightarrow> dA ! i = dB ! i"
    and vis: "\<And>p. p < q \<Longrightarrow> \<exists>k\<in>activeSlots. pixelOf dA p = outA ! k \<and> pixelOf dB p = outB ! k"
    by (auto simp: ditherRelated_def q_def)
  have "q < w * h" unfolding q_def using xy by (rule pixel_index_bound)
  then have q2: "4 * q + 2 < 4 * w * h" by simp
  have eq0: "dB ! (4 * q) = dA ! (4 * q)" using same[of "4 * q"] q2 by simp
  have eq1: "dB ! (4 * q + 1) = dA ! (4 * q + 1)" using same[of "4 * q + 1"] q2 by simp
  have eq2: "dB ! (4 * q + 2) = dA ! (4 * q + 2)" using same[of "4 * q + 2"] q2 by simp
  define oldR where "oldR = max 0 (min 255 (byteVal (dA ! (4 * q)) + eA ! (3 * q)))"
  define oldG where "oldG = max 0 (min 255 (byteVal (dA ! (4 * q + 1)) + eA ! (3 * q + 1)))"
  define oldB where "oldB = max 0 (min 255 (byteVal (dA ! (4 * q + 2)) + eA ! (3 * q + 2)))"
  define k where "k = findClosestColor oldR oldG oldB method dp dpLab"
  have k: "k \<in> activeSlots" unfolding k_def using len(3) by (rule findClosestColor_active)
  obtain aR aG aB where a: "outA ! k = (aR, aG, aB)" by (cases "outA ! k")
  obtain bR bG bB where b: "outB ! k = (bR, bG, bB)" by (cases "outB ! k")
  obtain pR pG pB where p: "dp ! k = (pR, pG, pB)" by (cases "dp ! k")
  define E where "E = fold (diffuse w h x y (oldR - pR) (oldG - pG) (oldB - pB)) m eA"
  define dA' where "dA' = dA[4 * q := toUint8Clamp aR, 4 * q + 1 := toUint8Clamp aG,
      4 * q + 2 := toUint8Clamp aB]"
  define dB' where "dB' = dB[4 * q := toUint8Clamp bR, 4 * q + 1 := toUint8Clamp bG,
      4 * q + 2 := toUint8Clamp bB]"
  have A: "ditherPixel w h method outA dp dpLab (Some m) y x sA = Inr (dA', E)"
    unfolding s ditherPixel_Some[OF len(1,3) q_def] Let_def
      oldR_def[symmetric] oldG_def[symmetric] oldB_def[symmetric] k_def[symmetric]
    by (simp add: a p E_def dA'_def)
  have B: "ditherPixel w h method outB dp dpLab (Some m) y x sB = Inr (dB', E)"
    unfolding s ditherPixel_Some[OF len(2,3) q_def] Let_def e eq0 eq1 eq2
      oldR_def[symmetric] oldG_def[symmetric] oldB_def[symmetric] k_def[symmetric]
    by (simp add: b p E_def dB'_def)
  have pa: "(byteVal (toUint8Clamp aR), byteVal (toUint8Clamp aG), byteVal (toUint8Clamp aB)) = outA ! k"
    using validA k a by (intro isByteColor_store) auto
  have pb: "(byteVal (toUint8Clamp bR), byteVal (toUint8Clamp bG), byteVal (toUint8Clamp bB)) = outB ! k"
    using validB k b by (intro isByteColor_store) auto
  have pxA: "pixelOf dA' r = (if r = q then outA ! k else pixelOf dA r)" for r
    unfolding dA'_def
    using pixelOf_update[of q dA "toUint8Clamp aR" "toUint8Clamp aG" "toUint8Clamp aB" r] q2 lenA pa
    by simp
  have pxB: "pixelOf dB' r = (if r = q then outB ! k else pixelOf dB r)" for r
    unfolding dB'_def
    using pixelOf_update[of q dB "toUint8Clamp bR" "toUint8Clamp bG" "toUint8Clamp bB" r] q2 lenB pb
    by simp
  have rest: "dA' ! i = dB' ! i" if "4 * Suc q \<le> i" "i < 4 * w * h" for i
    using that same[of i] by (simp add: dA'_def dB'_def)
  have visited: "\<exists>k\<in>activeSlots. pixelOf dA' r = outA ! k \<and> pixelOf dB' r = outB ! k"
    if "r < Suc q" for r
  proof (cases "r = q")
    case True
    with k show ?thesis unfolding pxA pxB by auto
  next
    case False
    with that have "r < q" by simp
    from vis[OF this] False show ?thesis unfolding pxA pxB by simp
  qed
  have "ditherRelated (4 * w * h) outA outB (Suc q) (dA', E) (dB', E)"
    unfolding ditherRelated_def using rest visited lenA lenB
    by (simp add: dA'_def dB'_def)
  with A B show ?thesis unfolding q_def by blast
qed


lemma ditherRows_related:
  assumes len: "length outA = 7" "length outB = 7" "length dp = 7"
    and validA: "\<forall>k\<in>activeSlots. isByteColor (outA ! k)"
    and validB: "\<forall>k\<in>activeSlots. isByteColor (outB ! k)"
    and rel: "ditherRelated (4 * w * h) outA outB 0 sA sB"
  shows "\<exists>sA' sB'.
       foldE (\<lambda>y. foldE (\<lambda>x. ditherPixel w h method outA dp dpLab (Some m) y x) [0..<w])
         [0..<h] sA = Inr sA'
     \<and> foldE (\<lambda>y. foldE (\<lambda>x. ditherPixel w h method outB dp dpLab (Some m) y x) [0..<w])
         [0..<h] sB = Inr sB'
     \<and> ditherRelated (4 * w * h) outA outB (h * w) sA' sB'"
proof (rule foldE_upt_related[where R = "\<lambda>y. ditherRelated (4 * w * h) outA outB (y * w)"])
  show "ditherRelated (4 * w * h) outA outB (0 * w) sA sB"
    using rel by simp
next
  fix y s t
  assume y: "y < h" and r: "ditherRelated (4 * w * h) outA outB (y * w) s t"
  have "\<exists>s' t'.
       foldE (\<lambda>x. ditherPixel w h method outA dp dpLab (Some m) y x) [0..<w] s = Inr s'
     \<and> foldE (\<lambda>x. ditherPixel w h method outB dp dpLab (Some m) y x) [0..<w] t = Inr t'
     \<and> ditherRelated (4 * w * h) outA outB (y * w + w) s' t'"
  proof (rule foldE_upt_related[where R = "\<lambda>x. ditherRelated (4 * w * h) outA outB (y * w + x)"])
    show "ditherRelated (4 * w * h) outA outB (y * w + 0) s t"
      using r by simp
  next
    fix x s t
    assume "x < w" and "ditherRelated (4 * w * h) outA outB (y * w + x) s t"
    with y show "\<exists>s' t'. ditherPixel w h method outA dp dpLab (Some m) y x s = Inr s'
         \<and> ditherPixel w h method outB dp dpLab (Some m) y x t = Inr t'
         \<and> ditherRelated (4 * w * h) outA outB (y * w + Suc x) s' t'"
      using ditherPixel_related[OF len validA validB, of y h x w s t "method" dpLab m] by simp
  qed
  then show "\<exists>s' t'.
       foldE (\<lambda>x. ditherPixel w h method outA dp dpLab (Some m) y x) [0..<w] s = Inr s'
     \<and> foldE (\<lambda>x. ditherPixel w h method outB dp dpLab (Some m) y x) [0..<w] t = Inr t'
     \<and> ditherRelated (4 * w * h) outA outB (Suc y * w) s' t'"
    by (simp add: add.commute)
qed

lemma pixelAt_pixelOf: "pixelAt img x y = pixelOf (data img) (y * width img + x)"
  by (simp add: pixelAt_def pixelOf_def Let_def mult.commute)

lemma dither_related:
  assumes wf: "wf_image img"
    and len: "length outA = 7" "length outB = 7" "length dp = 7"
    and validA: "\<forall>k\<in>activeSlots. isByteColor (outA ! k)"
    and validB: "\<forall>k\<in>activeSlots. isByteColor (outB ! k)"
    and m: "diffusionMatrix algorithm = Some m"
  shows "\<exists>a b. applyErrorDiffusionDither img method outA dp algorithm = Inr a
     \<and> applyErrorDiffusionDither img method outB dp algorithm = Inr b
     \<and> width a = width img \<and> height a = height img \<and> wf_image a
     \<and> width b = width img \<and> height b = height img \<and> wf_image b
     \<and> (\<forall>y<height img. \<forall>x<width img.
           \<exists>k\<in>activeSlots. pixelAt a x y = outA ! k \<and> pixelAt b x y = outB ! k)"
proof -
  let ?w = "width img" and ?h = "height img"
  let ?e = "replicate (?w * ?h * 3) (0 :: real)"
  let ?lab = "if method = ''lab'' then map (\<lambda>(r, g, b). rgbToLab r g b) dp else []"
  have "ditherRelated (4 * ?w * ?h) outA outB 0 (data img, ?e) (data img, ?e)"
    using wf by (simp add: ditherRelated_def wf_image_def)
  from ditherRows_related[OF len validA validB this, of "method" ?lab m]
  obtain dA eA dB eB where
    A: "foldE (\<lambda>y. foldE (\<lambda>x. ditherPixel ?w ?h method outA dp ?lab (Some m) y x) [0..<?w])
         [0..<?h] (data img, ?e) = Inr (dA, eA)"
    and B: "foldE (\<lambda>y. foldE (\<lambda>x. ditherPixel ?w ?h method outB dp ?lab (Some m) y x) [0..<?w])
         [0..<?h] (data img, ?e) = Inr (dB, eB)"
    and R: "ditherRelated (4 * ?w * ?h) outA outB (?h * ?w) (dA, eA) (dB, eB)"
    by (metis surj_pair)
  have a: "applyErrorDiffusionDither img method outA dp algorithm = Inr (img\<lparr>data := dA\<rparr>)"
    using A by (simp add: applyErrorDiffusionDither_def m Let_def)
  have b: "applyErrorDiffusionDither img method outB dp algorithm = Inr (img\<lparr>data := dB\<rparr>)"
    using B by (simp add: applyErrorDiffusionDither_def m Let_def)
  from R have lenA: "length dA = 4 * ?w * ?h" and lenB: "length dB = 4 * ?w * ?h"
    and vis: "\<And>p. p < ?h * ?w \<Longrightarrow>
        \<exists>k\<in>activeSlots. pixelOf dA p = outA ! k \<and> pixelOf dB p = outB ! k"
    by (auto simp: ditherRelated_def)
  have px: "\<exists>k\<in>activeSlots. pixelAt (img\<lparr>data := dA\<rparr>) x y = outA ! k
        \<and> pixelAt (img\<lparr>data := dB\<rparr>) x y = outB ! k"
    if "y < ?h" "x < ?w" for x y
  proof -
    have "y * ?w + x < ?h * ?w"
      using pixel_index_bound[OF that] by (simp add: mult.commute)
    from vis[OF this] show ?thesis
      by (simp add: pixelAt_pixelOf)
  qed
  show ?thesis
    using a b lenA lenB px by (simp add: wf_image_def)
qed

lemma diffusionMatrix_None_iff:
  "diffusionMatrix algorithm = None \<longleftrightarrow> algorithm \<in> set objectPrototypeKeys"
proof (cases "algorithm \<in> set objectPrototypeKeys")
  case True
  then have "DIFFUSION_MATRICES algorithm = None"
    by (auto simp: DIFFUSION_MATRICES_def objectPrototypeKeys_def)
  with True show ?thesis by (simp add: diffusionMatrix_def)
next
  case False
  then show ?thesis
    by (cases "DIFFUSION_MATRICES algorithm") (simp_all add: diffusionMatrix_def DIFFUSION_MATRICES_def)
qed

lemma ditherPixel_None:
  assumes "length out = 7" "length dp = 7"
  shows "ditherPixel w h method out dp dpLab None y x s = Inl TypeError"
proof -
  have "\<not> 7 \<le> findClosestColor r g b method dp dpLab" for r g b
    using findClosestColor_active[OF assms(2), of r g b "method" dpLab] activeSlots_less
    by (simp add: not_le)
  then show ?thesis
    using assms by (simp add: ditherPixel_def Let_def split: prod.splits)
qed

lemma foldE_Nil_fun: "foldE f [] = Inr"
  by (rule ext) simp

lemma foldE_Inr: "foldE (\<lambda>y. Inr) ys s = Inr s"
  by (induction ys) simp_all

lemma dither_not_iterable:
  assumes "length out = 7" "length dp = 7" "diffusionMatrix algorithm = None"
  shows "applyErrorDiffusionDither img method out dp algorithm =
           (if width img = 0 \<or> height img = 0 then Inr img else Inl TypeError)"
proof (cases "width img = 0 \<or> height img = 0")
  case True
  then show ?thesis
    by (auto simp: applyErrorDiffusionDither_def Let_def foldE_Nil_fun foldE_Inr)
next
  case False
  then have w: "[0..<width img] = 0 # [1..<width img]" and h: "[0..<height img] = 0 # [1..<height img]"
    by (simp_all add: upt_rec)
  show ?thesis
    using False
    by (simp add: applyErrorDiffusionDither_def Let_def assms(3) w h ditherPixel_None[OF assms(1,2)])
qed


text \<open>
  C1. For every well-formed image, every pair of 7-slot palette arrays in which the channels
  of the six active output entries are integers in \<open>[0, 255]\<close>, every colour-matching
  method and every algorithm name: when \<^verbatim>\<open>applyErrorDiffusionDither\<close> completes, the image
  keeps its dimensions and every pixel equals the output palette's entry at one of the
  slots 0, 1, 2, 3, 5, 6. It completes unless the algorithm name is a property inherited
  from \<^verbatim>\<open>Object.prototype\<close> and the image has a pixel.
\<close>

theorem dither_output_in_palette:
  assumes "wf_image img"
    and "length outputPaletteArray = 7" and "length ditherPaletteArray = 7"
    and "\<forall>k\<in>activeSlots. isByteColor (outputPaletteArray ! k)"
  shows "((\<exists>img'. applyErrorDiffusionDither img method outputPaletteArray ditherPaletteArray
                    algorithm = Inr img')
          \<longleftrightarrow> algorithm \<notin> set objectPrototypeKeys \<or> width img = 0 \<or> height img = 0)
       \<and> (\<forall>img'. applyErrorDiffusionDither img method outputPaletteArray ditherPaletteArray
                    algorithm = Inr img' \<longrightarrow>
              width img' = width img \<and> height img' = height img \<and> wf_image img'
              \<and> (\<forall>y<height img. \<forall>x<width img.
                    \<exists>k\<in>activeSlots. pixelAt img' x y = outputPaletteArray ! k))"
proof (cases "diffusionMatrix algorithm")
  case None
  then have "algorithm \<in> set objectPrototypeKeys"
    by (simp add: diffusionMatrix_None_iff)
  then show ?thesis
    using assms(1) by (auto simp: dither_not_iterable[OF assms(2,3) None])
next
  case (Some m)
  then have "algorithm \<notin> set objectPrototypeKeys"
    using diffusionMatrix_None_iff[of algorithm] by simp
  then show ?thesis
    using dither_related[OF assms(1) assms(2) assms(2) assms(3) assms(4) assms(4) Some, of "method"]
    by auto
qed

theorem dither_output_in_palette_witness:
  "\<exists>img'. applyErrorDiffusionDither
            \<lparr>width = 2, height = 1, data = [10, 20, 30, 255, 200, 200, 200, 255]\<rparr> ''lab''
            (paletteToArray (theoretical SPECTRA6)) (paletteToArray (perceived SPECTRA6))
            ''stucki'' = Inr img'
        \<and> width img' = 2 \<and> height img' = 1
        \<and> (\<forall>x<2. \<exists>k\<in>activeSlots. pixelAt img' x 0 = paletteToArray (theoretical SPECTRA6) ! k)"
proof -
  let ?img = "\<lparr>width = 2, height = 1, data = [10, 20, 30, 255, 200, 200, 200, 255]\<rparr>"
  have wf: "wf_image ?img"
    by (simp add: wf_image_def)
  have len: "length (paletteToArray (theoretical SPECTRA6)) = 7"
    "length (paletteToArray (perceived SPECTRA6)) = 7"
    by (simp_all add: paletteToArray_def)
  have bytes: "\<forall>k\<in>activeSlots. isByteColor (paletteToArray (theoretical SPECTRA6) ! k)"
    by (simp add: activeSlots_def paletteToArray_def SPECTRA6_def isByteColor_def isByteValue_def)
  have alg: "''stucki'' \<notin> set objectPrototypeKeys"
    by (simp add: objectPrototypeKeys_def)
  show ?thesis
    using dither_output_in_palette[OF wf len bytes, of "''lab''" "''stucki''"] alg
    by (auto simp del: One_nat_def)
qed

text \<open>
  C2. \<^verbatim>\<open>processImage\<close> hands the perceived palette to \<^verbatim>\<open>applyErrorDiffusionDither\<close> as
  the dither palette, and as the output palette the theoretical palette, or the perceived
  one when \<^verbatim>\<open>usePerceivedOutput\<close> is set. At each pixel the closest colour is searched in the
  dither palette, the pixel receives the output palette's entry at the index found, and the
  error that is diffused is the working colour minus the dither palette's entry at that
  index. Hence two runs that differ only in the output palette choose the same index at
  every pixel.
\<close>

theorem dither_palette_roles:
  assumes "wf_image img"
    and "length outA = 7" and "length outB = 7" and "length ditherPaletteArray = 7"
    and "\<forall>k\<in>activeSlots. isByteColor (outA ! k)"
    and "\<forall>k\<in>activeSlots. isByteColor (outB ! k)"
    and "algorithm \<notin> set objectPrototypeKeys"
  shows "(\<not> skipDithering options \<longrightarrow>
            processImage drawRotated drawCover source options =
              thenE (applyErrorDiffusionDither
                       (preprocessImage (orientAndResize drawRotated drawCover source options)
                          (params options) (Some (perceived (palette options))))
                       (orDefault (colorMethod (params options)) ''rgb'')
                       (paletteToArray (if usePerceivedOutput options
                                        then perceived (palette options)
                                        else theoretical (palette options)))
                       (paletteToArray (perceived (palette options)))
                       (orDefault (ditherAlgorithm (params options)) ''floyd-steinberg''))
                (\<lambda>result. Inr (result, source)))
       \<and> (\<forall>w h y x d errors m ditherPaletteLab.
            ditherPixel w h method outA ditherPaletteArray ditherPaletteLab (Some m) y x (d, errors) =
              (let q = y * w + x;
                   oldR = max 0 (min 255 (byteVal (d ! (4 * q)) + errors ! (3 * q)));
                   oldG = max 0 (min 255 (byteVal (d ! (4 * q + 1)) + errors ! (3 * q + 1)));
                   oldB = max 0 (min 255 (byteVal (d ! (4 * q + 2)) + errors ! (3 * q + 2)));
                   k = findClosestColor oldR oldG oldB method ditherPaletteArray ditherPaletteLab
               in case outA ! k of (newR, newG, newB) \<Rightarrow>
                  case ditherPaletteArray ! k of (ditherR, ditherG, ditherB) \<Rightarrow>
                    Inr (d[4 * q := toUint8Clamp newR, 4 * q + 1 := toUint8Clamp newG,
                           4 * q + 2 := toUint8Clamp newB],
                         fold (diffuse w h x y (oldR - ditherR) (oldG - ditherG) (oldB - ditherB))
                           m errors)))
       \<and> (\<exists>a b. applyErrorDiffusionDither img method outA ditherPaletteArray algorithm = Inr a
               \<and> applyErrorDiffusionDither img method outB ditherPaletteArray algorithm = Inr b
               \<and> (\<forall>y<height img. \<forall>x<width img.
                     \<exists>k\<in>activeSlots. pixelAt a x y = outA ! k \<and> pixelAt b x y = outB ! k))"
proof -
  have 1: "\<not> skipDithering options \<longrightarrow>
            processImage drawRotated drawCover source options =
              thenE (applyErrorDiffusionDither
                       (preprocessImage (orientAndResize drawRotated drawCover source options)
                          (params options) (Some (perceived (palette options))))
                       (orDefault (colorMethod (params options)) ''rgb'')
                       (paletteToArray (if usePerceivedOutput options
                                        then perceived (palette options)
                                        else theoretical (palette options)))
                       (paletteToArray (perceived (palette options)))
                       (orDefault (ditherAlgorithm (params options)) ''floyd-steinberg''))
                (\<lambda>result. Inr (result, source))"
    by (simp add: processImage_def Let_def)
  have 2: "ditherPixel w h method outA ditherPaletteArray ditherPaletteLab (Some m) y x (d, errors) =
              (let q = y * w + x;
                   oldR = max 0 (min 255 (byteVal (d ! (4 * q)) + errors ! (3 * q)));
                   oldG = max 0 (min 255 (byteVal (d ! (4 * q + 1)) + errors ! (3 * q + 1)));
                   oldB = max 0 (min 255 (byteVal (d ! (4 * q + 2)) + errors ! (3 * q + 2)));
                   k = findClosestColor oldR oldG oldB method ditherPaletteArray ditherPaletteLab
               in case outA ! k of (newR, newG, newB) \<Rightarrow>
                  case ditherPaletteArray ! k of (ditherR, ditherG, ditherB) \<Rightarrow>
                    Inr (d[4 * q := toUint8Clamp newR, 4 * q + 1 := toUint8Clamp newG,
                           4 * q + 2 := toUint8Clamp newB],
                         fold (diffuse w h x y (oldR - ditherR) (oldG - ditherG) (oldB - ditherB))
                           m errors))"
    for w h y x d errors m ditherPaletteLab
    using ditherPixel_Some[OF assms(2,4) refl, of w h "method" ditherPaletteLab m y x d errors]
    by (simp add: Let_def)
  obtain m where m: "diffusionMatrix algorithm = Some m"
    using assms(7) diffusionMatrix_None_iff[of algorithm] by (cases "diffusionMatrix algorithm") auto
  have 3: "\<exists>a b. applyErrorDiffusionDither img method outA ditherPaletteArray algorithm = Inr a
               \<and> applyErrorDiffusionDither img method outB ditherPaletteArray algorithm = Inr b
               \<and> (\<forall>y<height img. \<forall>x<width img.
                     \<exists>k\<in>activeSlots. pixelAt a x y = outA ! k \<and> pixelAt b x y = outB ! k)"
    using dither_related[OF assms(1-6) m, of "method"] by blast
  from 1 2 3 show ?thesis by blast
qed

theorem dither_palette_roles_witness:
  "processImage (\<lambda>c i. 0) (\<lambda>c w h i. 0)
       \<lparr>width = 2, height = 1, data = [10, 20, 30, 255, 200, 200, 200, 255]\<rparr> defaultOptions =
     thenE (applyErrorDiffusionDither
              (preprocessImage
                 (orientAndResize (\<lambda>c i. 0) (\<lambda>c w h i. 0)
                    \<lparr>width = 2, height = 1, data = [10, 20, 30, 255, 200, 200, 200, 255]\<rparr>
                    defaultOptions)
                 getDefaultParams (Some (perceived SPECTRA6)))
              ''rgb'' (paletteToArray (theoretical SPECTRA6)) (paletteToArray (perceived SPECTRA6))
              ''floyd-steinberg'')
       (\<lambda>result. Inr (result, \<lparr>width = 2, height = 1, data = [10, 20, 30, 255, 200, 200, 200, 255]\<rparr>))
   \<and> (\<exists>a b. applyErrorDiffusionDither
               \<lparr>width = 2, height = 1, data = [10, 20, 30, 255, 200, 200, 200, 255]\<rparr> ''rgb''
               (paletteToArray (theoretical SPECTRA6)) (paletteToArray (perceived SPECTRA6))
               ''floyd-steinberg'' = Inr a
           \<and> applyErrorDiffusionDither
               \<lparr>width = 2, height = 1, data = [10, 20, 30, 255, 200, 200, 200, 255]\<rparr> ''rgb''
               (paletteToArray (perceived SPECTRA6)) (paletteToArray (perceived SPECTRA6))
               ''floyd-steinberg'' = Inr b
           \<and> (\<forall>x<2. \<exists>k\<in>activeSlots.
                 pixelAt a x 0 = paletteToArray (theoretical SPECTRA6) ! k
                 \<and> pixelAt b x 0 = paletteToArray (perceived SPECTRA6) ! k))"
proof -
  let ?img = "\<lparr>width = 2, height = 1, data = [10, 20, 30, 255, 200, 200, 200, 255]\<rparr>"
  have wf: "wf_image ?img"
    by (simp add: wf_image_def)
  have len: "length (paletteToArray (theoretical SPECTRA6)) = 7"
    "length (paletteToArray (perceived SPECTRA6)) = 7"
    by (simp_all add: paletteToArray_def)
  have bytesT: "\<forall>k\<in>activeSlots. isByteColor (paletteToArray (theoretical SPECTRA6) ! k)"
    by (simp add: activeSlots_def paletteToArray_def SPECTRA6_def isByteColor_def isByteValue_def)
  have bytesP: "\<forall>k\<in>activeSlots. isByteColor (paletteToArray (perceived SPECTRA6) ! k)"
    by (simp add: activeSlots_def paletteToArray_def SPECTRA6_def isByteColor_def isByteValue_def)
  have alg: "''floyd-steinberg'' \<notin> set objectPrototypeKeys"
    by (simp add: objectPrototypeKeys_def)
  have opts: "\<not> skipDithering defaultOptions" "\<not> usePerceivedOutput defaultOptions"
    "palette defaultOptions = SPECTRA6" "params defaultOptions = getDefaultParams"
    "orDefault (colorMethod getDefaultParams) ''rgb'' = ''rgb''"
    "orDefault (ditherAlgorithm getDefaultParams) ''floyd-steinberg'' = ''floyd-steinberg''"
    by (simp_all add: defaultOptions_def getDefaultParams_def)
  show ?thesis
    using dither_palette_roles[OF wf len(1) len(2) len(2) bytesT bytesP alg,
        of defaultOptions "\<lambda>c i. 0" "\<lambda>c w h i. 0" ?img "''rgb''"]
    by (auto simp: opts simp del: One_nat_def)
qed

section \<open>Theorems: the pipeline\<close>

lemma fold_length_preserving:
  assumes "\<And>i d. length (f i d) = length d"
  shows "length (fold f xs d) = length d"
  by (induction xs arbitrary: d) (simp_all add: assms)
lemma length_Let: "(\<And>v. length (f v) = n) \<Longrightarrow> length (Let a f) = n"
  by simp
lemma length_case_prod3: "(\<And>a b c. length (f a b c) = n) \<Longrightarrow> length (case p of (a, b, c) \<Rightarrow> f a b c) = n"
  by (cases p) simp
lemma length_if: "length a = n \<Longrightarrow> length b = n \<Longrightarrow> length (if c then a else b) = n"
  by simp
lemma data_update: "data (img\<lparr>data := v\<rparr>) = v" "width (img\<lparr>data := v\<rparr>) = width img"
  "height (img\<lparr>data := v\<rparr>) = height img"
  by simp_all
lemma applySaturation_dims:
  "width (applySaturation img e) = width img \<and> height (applySaturation img e) = height img
   \<and> length (data (applySaturation img e)) = length (data img)"
proof (cases "e = 1")
  case True
  then show ?thesis by (simp add: applySaturation_def)
next
  case False
  have "length (data (applySaturation img e)) = length (data img)"
    unfolding applySaturation_def if_not_P[OF False] data_update
    apply (rule fold_length_preserving)
    apply (intro length_Let length_if length_case_prod3)
     apply (simp_all only: length_list_update)
    done
  moreover have "width (applySaturation img e) = width img \<and> height (applySaturation img e) = height img"
    unfolding applySaturation_def if_not_P[OF False] data_update by simp
  ultimately show ?thesis by simp
qed
lemma applyScurveTonemap_dims:
  "width (applyScurveTonemap img s sb hc mp) = width img
   \<and> height (applyScurveTonemap img s sb hc mp) = height img
   \<and> length (data (applyScurveTonemap img s sb hc mp)) = length (data img)"
proof (cases "s = 0")
  case True
  then show ?thesis by (simp add: applyScurveTonemap_def)
next
  case False
  have "length (data (applyScurveTonemap img s sb hc mp)) = length (data img)"
    unfolding applyScurveTonemap_def if_not_P[OF False] data_update
    apply (rule fold_length_preserving)
    apply (rule fold_length_preserving)
    apply (intro length_Let length_if length_case_prod3)
    apply (simp_all only: length_list_update)
    done
  moreover have "width (applyScurveTonemap img s sb hc mp) = width img
   \<and> height (applyScurveTonemap img s sb hc mp) = height img"
    unfolding applyScurveTonemap_def if_not_P[OF False] data_update by simp
  ultimately show ?thesis by simp
qed

lemma applyExposure_dims:
  "width (applyExposure img e) = width img \<and> height (applyExposure img e) = height img
   \<and> length (data (applyExposure img e)) = length (data img)"
  by (simp add: applyExposure_def fold_length_preserving Let_def)

lemma applyContrast_dims:
  "width (applyContrast img e) = width img \<and> height (applyContrast img e) = height img
   \<and> length (data (applyContrast img e)) = length (data img)"
  by (simp add: applyContrast_def fold_length_preserving Let_def)

lemma preprocessImage_dims:
  "width (preprocessImage img ps pal) = width img \<and> height (preprocessImage img ps pal) = height img
   \<and> length (data (preprocessImage img ps pal)) = length (data img)"
  by (simp add: preprocessImage_def Let_def applyExposure_dims applyContrast_dims
      applySaturation_dims applyScurveTonemap_dims fold_length_preserving
      split: option.splits prod.splits)

lemma dither_completes:
  assumes "length out = 7" "length dp = 7" "diffusionMatrix algorithm = Some m"
  shows "\<exists>d. applyErrorDiffusionDither img method out dp algorithm = Inr (img\<lparr>data := d\<rparr>)"
proof -
  let ?w = "width img" and ?h = "height img"
  let ?lab = "if method = ''lab'' then map (\<lambda>(r, g, b). rgbToLab r g b) dp else []"
  let ?row = "\<lambda>y. foldE (\<lambda>x. ditherPixel ?w ?h method out dp ?lab (Some m) y x) [0..<?w]"
  have pixel: "\<exists>s'. ditherPixel ?w ?h method out dp ?lab (Some m) y x s = Inr s'" for y x s
    by (cases s) (simp add: ditherPixel_Some[OF assms(1,2) refl] Let_def split: prod.splits)
  have row: "\<exists>s'. ?row y s = Inr s'" for y s
    using foldE_upt_related[where R = "\<lambda>_ _ _. True" and s = s and t = s and n = ?w
        and f = "\<lambda>x. ditherPixel ?w ?h method out dp ?lab (Some m) y x"
        and g = "\<lambda>x. ditherPixel ?w ?h method out dp ?lab (Some m) y x"] pixel
    by blast
  have "\<exists>s'. foldE ?row [0..<?h] s = Inr s'" for s
    using foldE_upt_related[where R = "\<lambda>_ _ _. True" and s = s and t = s and n = ?h
        and f = ?row and g = ?row] row
    by blast
  then obtain d e where "foldE ?row [0..<?h] (data img, replicate (?w * ?h * 3) 0) = Inr (d, e)"
    by (metis surj_pair)
  then show ?thesis
    by (auto simp: applyErrorDiffusionDither_def Let_def assms(3))
qed

lemma orientAndResize_dims:
  "(width (orientAndResize drawRotated drawCover source options),
    height (orientAndResize drawRotated drawCover source options))
   = finalDimensions source options"
  by (cases "finalDimensions source options")
     (auto simp: orientAndResize_def Let_def resizeImageCover_def)

lemma orientAndResize_unchanged:
  assumes "\<not> (height source > width source \<and> \<not> skipRotation options)"
    and "finalDimensions source options = (width source, height source)"
  shows "orientAndResize drawRotated drawCover source options = source"
  using assms by (auto simp: orientAndResize_def Let_def)

lemma processImage_result:
  assumes "skipDithering options
     \<or> orDefault (ditherAlgorithm (params options)) ''floyd-steinberg'' \<notin> set objectPrototypeKeys"
  shows "\<exists>canvas. processImage drawRotated drawCover source options = Inr (canvas, source)
       \<and> (width canvas, height canvas) = finalDimensions source options"
proof (cases "skipDithering options")
  case True
  then show ?thesis
    using orientAndResize_dims[of drawRotated drawCover source options]
    by (simp add: processImage_def Let_def preprocessImage_dims)
next
  case False
  let ?pre = "preprocessImage (orientAndResize drawRotated drawCover source options)
      (params options) (Some (perceived (palette options)))"
  let ?alg = "orDefault (ditherAlgorithm (params options)) ''floyd-steinberg''"
  from False assms obtain m where m: "diffusionMatrix ?alg = Some m"
    using diffusionMatrix_None_iff[of ?alg] by (cases "diffusionMatrix ?alg") auto
  have len: "length (paletteToArray p) = 7" for p
    by (simp add: paletteToArray_def)
  obtain d where d: "applyErrorDiffusionDither ?pre
      (orDefault (colorMethod (params options)) ''rgb'')
      (paletteToArray (if usePerceivedOutput options then perceived (palette options)
                       else theoretical (palette options)))
      (paletteToArray (perceived (palette options))) ?alg = Inr (?pre\<lparr>data := d\<rparr>)"
    using dither_completes[OF len len m] by blast
  have "processImage drawRotated drawCover source options = Inr (?pre\<lparr>data := d\<rparr>, source)"
    using False d by (simp add: processImage_def Let_def thenE_def)
  then show ?thesis
    using orientAndResize_dims[of drawRotated drawCover source options]
    by (simp add: preprocessImage_dims)
qed

text \<open>
  C9 fails as stated: \<^verbatim>\<open>processImage\<close> rotates a portrait source and resizes to the display
  dimensions. With the default options a 1000 x 600 source gives an 800 x 480 canvas, and a
  480 x 800 source is rotated.
\<close>

theorem processImage_resizes_counterexample:
  "(\<exists>canvas. processImage (\<lambda>c i. 0) (\<lambda>c w h i. 0)
        \<lparr>width = 1000, height = 600, data = replicate (4 * 1000 * 600) 0\<rparr> defaultOptions
      = Inr (canvas, \<lparr>width = 1000, height = 600, data = replicate (4 * 1000 * 600) 0\<rparr>)
      \<and> width canvas = 800 \<and> height canvas = 480)
   \<and> orientAndResize (\<lambda>c i. 0) (\<lambda>c w h i. 0)
        \<lparr>width = 480, height = 800, data = replicate (4 * 480 * 800) 0\<rparr> defaultOptions
      = rotate90Clockwise (\<lambda>c i. 0)
          \<lparr>width = 480, height = 800, data = replicate (4 * 480 * 800) 0\<rparr>"
proof -
  let ?src = "\<lparr>width = 1000, height = 600, data = replicate (4 * 1000 * 600) (0 :: byte)\<rparr>"
  have alg: "orDefault (ditherAlgorithm (params defaultOptions)) ''floyd-steinberg''
      \<notin> set objectPrototypeKeys"
    by (simp add: defaultOptions_def getDefaultParams_def objectPrototypeKeys_def)
  have fin: "finalDimensions ?src defaultOptions = (800, 480)"
    by (simp add: finalDimensions_def defaultOptions_def DEFAULT_DISPLAY_WIDTH_def
        DEFAULT_DISPLAY_HEIGHT_def)
  have 1: "\<exists>canvas. processImage (\<lambda>c i. 0) (\<lambda>c w h i. 0) ?src defaultOptions = Inr (canvas, ?src)
      \<and> width canvas = 800 \<and> height canvas = 480"
    using processImage_result[of defaultOptions "\<lambda>c i. 0" "\<lambda>c w h i. 0" ?src] alg
    unfolding fin by auto
  have 2: "orientAndResize (\<lambda>c i. 0) (\<lambda>c w h i. 0)
        \<lparr>width = 480, height = 800, data = replicate (4 * 480 * 800) 0\<rparr> defaultOptions
      = rotate90Clockwise (\<lambda>c i. 0)
          \<lparr>width = 480, height = 800, data = replicate (4 * 480 * 800) 0\<rparr>"
    by (simp add: orientAndResize_def finalDimensions_def defaultOptions_def DEFAULT_DISPLAY_WIDTH_def
        DEFAULT_DISPLAY_HEIGHT_def rotate90Clockwise_def Let_def)
  from 1 2 show ?thesis by blast
qed

text \<open>
  C9, amended. \<^verbatim>\<open>processImage\<close> returns a canvas with the final dimensions: the display
  dimensions, swapped for a portrait source when rotation is skipped and the display is
  landscape. It leaves the source as it is, neither rotated nor resized, when the source is
  not a portrait to be rotated and already has the final dimensions. The second component
  of the result is the source canvas.
\<close>

theorem processImage_dimensions:
  assumes "skipDithering options
     \<or> orDefault (ditherAlgorithm (params options)) ''floyd-steinberg'' \<notin> set objectPrototypeKeys"
  shows "(\<exists>canvas. processImage drawRotated drawCover source options = Inr (canvas, source)
            \<and> (width canvas, height canvas) = finalDimensions source options)
       \<and> (\<not> (height source > width source \<and> \<not> skipRotation options)
            \<and> finalDimensions source options = (width source, height source)
          \<longrightarrow> orientAndResize drawRotated drawCover source options = source)"
  using processImage_result[OF assms] orientAndResize_unchanged by blast

theorem processImage_dimensions_witness:
  "(\<exists>canvas. processImage (\<lambda>c i. 0) (\<lambda>c w h i. 0)
        \<lparr>width = 2, height = 1, data = [10, 20, 30, 255, 200, 200, 200, 255]\<rparr>
        (defaultOptions\<lparr>displayWidth := 2, displayHeight := 1\<rparr>)
      = Inr (canvas, \<lparr>width = 2, height = 1, data = [10, 20, 30, 255, 200, 200, 200, 255]\<rparr>)
      \<and> (width canvas, height canvas) = (2, 1))
   \<and> orientAndResize (\<lambda>c i. 0) (\<lambda>c w h i. 0)
        \<lparr>width = 2, height = 1, data = [10, 20, 30, 255, 200, 200, 200, 255]\<rparr>
        (defaultOptions\<lparr>displayWidth := 2, displayHeight := 1\<rparr>)
      = \<lparr>width = 2, height = 1, data = [10, 20, 30, 255, 200, 200, 200, 255]\<rparr>"
proof -
  let ?src = "\<lparr>width = 2, height = 1, data = [10, 20, 30, 255, 200, 200, 200, 255 :: byte]\<rparr>"
  let ?opt = "defaultOptions\<lparr>displayWidth := 2, displayHeight := 1\<rparr>"
  have alg: "orDefault (ditherAlgorithm (params ?opt)) ''floyd-steinberg''
      \<notin> set objectPrototypeKeys"
    by (simp add: defaultOptions_def getDefaultParams_def objectPrototypeKeys_def)
  have fin: "finalDimensions ?src ?opt = (2, 1)"
    by (simp add: finalDimensions_def defaultOptions_def)
  have rot: "\<not> (height ?src > width ?src \<and> \<not> skipRotation ?opt)"
    by simp
  show ?thesis
    using processImage_dimensions[of ?opt "\<lambda>c i. 0" "\<lambda>c w h i. 0" ?src] alg rot
    unfolding fin by (simp del: One_nat_def)
qed

section \<open>Theorems: bitmap encoding\<close>

lemma ceiling_quarter: "nat \<lceil>real n / 4\<rceil> = (n + 3) div 4"
proof -
  define k where "k = (n + 3) div 4"
  have "n \<le> 4 * k" "4 * k < n + 4"
    unfolding k_def by presburger+
  then have "real n \<le> real (4 * k)" "real (4 * k) < real (n + 4)"
    by (simp_all only: of_nat_le_iff of_nat_less_iff)
  then have "\<lceil>real n / 4\<rceil> = int k"
    by (intro ceiling_unique) simp_all
  then show ?thesis by (simp add: k_def)
qed

lemma bmpRowSize_alt: "bmpRowSize w = ((w * 3 + 3) div 4) * 4"
  unfolding bmpRowSize_def ceiling_quarter ..

lemma bmpRowSize_bounds: "w * 3 \<le> bmpRowSize w" "bmpRowSize w < w * 3 + 4" "bmpRowSize w mod 4 = 0"
  unfolding bmpRowSize_alt by presburger+

lemma take_update_snoc:
  "off < length buf \<Longrightarrow> take (Suc off) (buf[off := v]) = take off buf @ [v]"
  by (simp add: take_Suc_conv_app_nth)

lemma write4_take:
  assumes "off + 4 \<le> length buf"
  shows "take (off + 4) (buf[off := a, off + 1 := b, off + 2 := c, off + 3 := d])
         = take off buf @ [a, b, c, d]"
proof -
  have "take (off + 4) (buf[off := a, off + 1 := b, off + 2 := c, off + 3 := d])
      = take (off + 3) (buf[off := a, off + 1 := b, off + 2 := c]) @ [d]"
    using assms take_update_snoc[of "off + 3" "buf[off := a, off + 1 := b, off + 2 := c]" d]
    by (simp add: numeral_eq_Suc)
  also have "take (off + 3) (buf[off := a, off + 1 := b, off + 2 := c])
      = take (off + 2) (buf[off := a, off + 1 := b]) @ [c]"
    using assms take_update_snoc[of "off + 2" "buf[off := a, off + 1 := b]" c]
    by (simp add: numeral_eq_Suc)
  also have "take (off + 2) (buf[off := a, off + 1 := b]) = take (off + 1) (buf[off := a]) @ [b]"
    using assms take_update_snoc[of "off + 1" "buf[off := a]" b]
    by (simp add: numeral_eq_Suc)
  also have "take (off + 1) (buf[off := a]) = take off buf @ [a]"
    using assms take_update_snoc[of off buf a] by simp
  finally show ?thesis by simp
qed

lemma write3_take:
  assumes "off + 3 \<le> length buf"
  shows "take (off + 3) (buf[off := a, off + 1 := b, off + 2 := c]) = take off buf @ [a, b, c]"
proof -
  have "take (off + 3) (buf[off := a, off + 1 := b, off + 2 := c])
      = take (off + 2) (buf[off := a, off + 1 := b]) @ [c]"
    using assms take_update_snoc[of "off + 2" "buf[off := a, off + 1 := b]" c]
    by (simp add: numeral_eq_Suc)
  also have "take (off + 2) (buf[off := a, off + 1 := b]) = take (off + 1) (buf[off := a]) @ [b]"
    using assms take_update_snoc[of "off + 1" "buf[off := a]" b]
    by (simp add: numeral_eq_Suc)
  also have "take (off + 1) (buf[off := a]) = take off buf @ [a]"
    using assms take_update_snoc[of off buf a] by simp
  finally show ?thesis by simp
qed

lemma write2_take:
  assumes "off + 2 \<le> length buf"
  shows "take (off + 2) (buf[off := a, off + 1 := b]) = take off buf @ [a, b]"
proof -
  have "take (off + 2) (buf[off := a, off + 1 := b]) = take (off + 1) (buf[off := a]) @ [b]"
    using assms take_update_snoc[of "off + 1" "buf[off := a]" b]
    by (simp add: numeral_eq_Suc)
  also have "take (off + 1) (buf[off := a]) = take off buf @ [a]"
    using assms take_update_snoc[of off buf a] by simp
  finally show ?thesis by simp
qed

lemma writeUInt32LE_take:
  assumes "v < 2 ^ 32" "off + 4 \<le> length buf" "take off buf = pre"
  shows "\<exists>buf'. writeUInt32LE v off buf = Inr buf' \<and> length buf' = length buf
           \<and> take (off + 4) buf' = pre @ le32 v"
proof -
  let ?b = "buf[off := of_nat v, off + 1 := of_nat (v div 2 ^ 8),
                off + 2 := of_nat (v div 2 ^ 16), off + 3 := of_nat (v div 2 ^ 24)]"
  have "writeUInt32LE v off buf = Inr ?b"
    using assms(1,2) by (simp add: writeUInt32LE_def)
  moreover have "length ?b = length buf"
    by (simp only: length_list_update)
  moreover have "take (off + 4) ?b = pre @ le32 v"
    unfolding le32_def assms(3)[symmetric] using assms(2) by (rule write4_take)
  ultimately show ?thesis by blast
qed

lemma writeInt32LE_take:
  assumes "v < 2 ^ 31" "off + 4 \<le> length buf" "take off buf = pre"
  shows "\<exists>buf'. writeInt32LE v off buf = Inr buf' \<and> length buf' = length buf
           \<and> take (off + 4) buf' = pre @ le32 v"
proof -
  let ?b = "buf[off := of_nat v, off + 1 := of_nat (v div 2 ^ 8),
                off + 2 := of_nat (v div 2 ^ 16), off + 3 := of_nat (v div 2 ^ 24)]"
  have "writeInt32LE v off buf = Inr ?b"
    using assms(1,2) by (simp add: writeInt32LE_def)
  moreover have "length ?b = length buf"
    by (simp only: length_list_update)
  moreover have "take (off + 4) ?b = pre @ le32 v"
    unfolding le32_def assms(3)[symmetric] using assms(2) by (rule write4_take)
  ultimately show ?thesis by blast
qed

lemma writeUInt16LE_take:
  assumes "v < 2 ^ 16" "off + 2 \<le> length buf" "take off buf = pre"
  shows "\<exists>buf'. writeUInt16LE v off buf = Inr buf' \<and> length buf' = length buf
           \<and> take (off + 2) buf' = pre @ le16 v"
proof -
  let ?b = "buf[off := of_nat v, off + 1 := of_nat (v div 2 ^ 8)]"
  have "writeUInt16LE v off buf = Inr ?b"
    using assms(1,2) by (simp add: writeUInt16LE_def)
  moreover have "length ?b = length buf"
    by (simp only: length_list_update)
  moreover have "take (off + 2) ?b = pre @ le16 v"
    unfolding le16_def assms(3)[symmetric] using assms(2) by (rule write2_take)
  ultimately show ?thesis by blast
qed

lemma bufferWrite_BM:
  assumes "2 \<le> length buf"
  shows "length (bufferWrite [a, b] 0 buf) = length buf \<and> take 2 (bufferWrite [a, b] 0 buf) = [a, b]"
proof -
  have e: "bufferWrite [a, b] 0 buf = buf[0 := a, 0 + 1 := b]"
    by (simp add: bufferWrite_def upt_rec)
  have "take (0 + 2) (buf[0 := a, 0 + 1 := b]) = take 0 buf @ [a, b]"
    using assms by (intro write2_take) simp
  then show ?thesis
    unfolding e by (simp add: numeral_2_eq_2)
qed


lemma bmpPixel_take:
  assumes "off + 3 \<le> length buf"
  shows "\<exists>buf'. bmpPixel w d y x (buf, off) = (buf', off + 3) \<and> length buf' = length buf
     \<and> take (off + 3) buf' = take off buf
          @ [d ! ((y * w + x) * 4 + 2), d ! ((y * w + x) * 4 + 1), d ! ((y * w + x) * 4)]"
proof -
  let ?s = "(y * w + x) * 4"
  let ?b = "buf[off := d ! (?s + 2), off + 1 := d ! (?s + 1), off + 2 := d ! ?s]"
  have "bmpPixel w d y x (buf, off) = (?b, off + 3)"
    by (simp add: bmpPixel_def Let_def)
  moreover have "length ?b = length buf"
    by (simp only: length_list_update)
  moreover have "take (off + 3) ?b = take off buf @ [d ! (?s + 2), d ! (?s + 1), d ! ?s]"
    using assms by (rule write3_take)
  ultimately show ?thesis by blast
qed

lemma bmpPixels_take:
  assumes "off + 3 * n \<le> length buf"
  shows "\<exists>buf'. fold (bmpPixel w d y) [0..<n] (buf, off) = (buf', off + 3 * n)
     \<and> length buf' = length buf
     \<and> take (off + 3 * n) buf' = take off buf
          @ concat (map (\<lambda>x. [d ! ((y * w + x) * 4 + 2), d ! ((y * w + x) * 4 + 1),
                                d ! ((y * w + x) * 4)]) [0..<n])"
  using assms
proof (induction n)
  case 0
  then show ?case by simp
next
  case (Suc n)
  then obtain b1 where b1: "fold (bmpPixel w d y) [0..<n] (buf, off) = (b1, off + 3 * n)"
    "length b1 = length buf"
    "take (off + 3 * n) b1 = take off buf
          @ concat (map (\<lambda>x. [d ! ((y * w + x) * 4 + 2), d ! ((y * w + x) * 4 + 1),
                                d ! ((y * w + x) * 4)]) [0..<n])"
    by auto
  have "off + 3 * n + 3 \<le> length b1"
    using Suc.prems b1(2) by simp
  from bmpPixel_take[OF this, of w d y n]
  obtain b2 where b2: "bmpPixel w d y n (b1, off + 3 * n) = (b2, off + 3 * n + 3)"
    "length b2 = length b1"
    "take (off + 3 * n + 3) b2 = take (off + 3 * n) b1
          @ [d ! ((y * w + n) * 4 + 2), d ! ((y * w + n) * 4 + 1), d ! ((y * w + n) * 4)]"
    by blast
  have e: "off + 3 * Suc n = off + 3 * n + 3" by simp
  show ?case
    unfolding e using b1 b2 by simp
qed

lemma bmpPad_take:
  assumes "off + n \<le> length buf"
  shows "\<exists>buf'. fold bmpPad [0..<n] (buf, off) = (buf', off + n) \<and> length buf' = length buf
     \<and> take (off + n) buf' = take off buf @ replicate n 0"
  using assms
proof (induction n)
  case 0
  then show ?case by simp
next
  case (Suc n)
  then obtain b1 where b1: "fold bmpPad [0..<n] (buf, off) = (b1, off + n)"
    "length b1 = length buf" "take (off + n) b1 = take off buf @ replicate n 0"
    by auto
  have "take (Suc (off + n)) (b1[off + n := 0]) = take (off + n) b1 @ [0]"
    using Suc.prems b1(2) by (intro take_update_snoc) simp
  moreover have "bmpPad n (b1, off + n) = (b1[off + n := 0], Suc (off + n))"
    by (simp add: bmpPad_def)
  ultimately show ?case
    using b1 by (simp add: replicate_append_same)
qed

lemma bmpRow_take:
  assumes "off + bmpRowSize w \<le> length buf"
  shows "\<exists>buf'. bmpRow w (bmpRowSize w) d y (buf, off) = (buf', off + bmpRowSize w)
     \<and> length buf' = length buf
     \<and> take (off + bmpRowSize w) buf' = take off buf @ bmpRowBytes w d y"
proof -
  have le: "w * 3 \<le> bmpRowSize w" by (rule bmpRowSize_bounds)
  then have "off + 3 * w \<le> length buf" using assms by simp
  from bmpPixels_take[OF this, of w d y]
  obtain b1 where b1: "fold (bmpPixel w d y) [0..<w] (buf, off) = (b1, off + 3 * w)"
    "length b1 = length buf"
    "take (off + 3 * w) b1 = take off buf
          @ concat (map (\<lambda>x. [d ! ((y * w + x) * 4 + 2), d ! ((y * w + x) * 4 + 1),
                                d ! ((y * w + x) * 4)]) [0..<w])"
    by blast
  have "off + 3 * w + (bmpRowSize w - w * 3) \<le> length b1"
    using assms le b1(2) by simp
  from bmpPad_take[OF this]
  obtain b2 where b2: "fold bmpPad [0..<bmpRowSize w - w * 3] (b1, off + 3 * w)
      = (b2, off + 3 * w + (bmpRowSize w - w * 3))"
    "length b2 = length b1"
    "take (off + 3 * w + (bmpRowSize w - w * 3)) b2
      = take (off + 3 * w) b1 @ replicate (bmpRowSize w - w * 3) 0"
    by blast
  have e: "off + 3 * w + (bmpRowSize w - w * 3) = off + bmpRowSize w"
    using le by simp
  show ?thesis
    using b1 b2 unfolding e by (simp add: bmpRow_def Let_def bmpRowBytes_def)
qed

lemma bmpRows_take:
  assumes "off + bmpRowSize w * length ys \<le> length buf"
  shows "\<exists>buf'. fold (bmpRow w (bmpRowSize w) d) ys (buf, off)
         = (buf', off + bmpRowSize w * length ys)
     \<and> length buf' = length buf
     \<and> take (off + bmpRowSize w * length ys) buf'
         = take off buf @ concat (map (bmpRowBytes w d) ys)"
  using assms
proof (induction ys arbitrary: buf off)
  case Nil
  then show ?case by simp
next
  case (Cons y ys)
  have "off + bmpRowSize w \<le> length buf"
    using Cons.prems by simp
  from bmpRow_take[OF this, of d y]
  obtain b1 where b1: "bmpRow w (bmpRowSize w) d y (buf, off) = (b1, off + bmpRowSize w)"
    "length b1 = length buf"
    "take (off + bmpRowSize w) b1 = take off buf @ bmpRowBytes w d y"
    by blast
  have "off + bmpRowSize w + bmpRowSize w * length ys \<le> length b1"
    using Cons.prems b1(2) by simp
  from Cons.IH[OF this]
  obtain b2 where b2: "fold (bmpRow w (bmpRowSize w) d) ys (b1, off + bmpRowSize w)
         = (b2, off + bmpRowSize w + bmpRowSize w * length ys)"
    "length b2 = length b1"
    "take (off + bmpRowSize w + bmpRowSize w * length ys) b2
         = take (off + bmpRowSize w) b1 @ concat (map (bmpRowBytes w d) ys)"
    by blast
  have e: "off + bmpRowSize w * length (y # ys) = off + bmpRowSize w + bmpRowSize w * length ys"
    by simp
  show ?case
    unfolding e using b1 b2 by simp
qed


lemma createBMP_eq_bmpFile:
  assumes w31: "width img < 2 ^ 31" and h31: "height img < 2 ^ 31"
    and N32: "54 + bmpRowSize (width img) * height img < 2 ^ 32"
  shows "createBMP img = Inr (bmpFile img)"
proof -
  let ?w = "width img" and ?h = "height img" and ?d = "data img"
  let ?R = "bmpRowSize (width img)"
  let ?N = "54 + ?R * ?h"
  have P32: "?R * ?h < 2 ^ 32" using N32 by simp
  define b1 where "b1 = bufferWrite [0x42, 0x4D] 0 (replicate ?N 0)"
  have l1: "length b1 = ?N" and t1: "take 2 b1 = [0x42, 0x4D]"
    using bufferWrite_BM[of "replicate ?N 0" "0x42" "0x4D"] by (simp_all add: b1_def)
  have "?N < (2 :: nat) ^ 32" by (rule N32)
  from writeUInt32LE_take[OF this, of 2 b1 "[0x42, 0x4D]"]
  obtain b2 where s2: "writeUInt32LE ?N 2 b1 = Inr b2" and l2: "length b2 = ?N"
    and t2: "take 6 b2 = [0x42, 0x4D] @ le32 ?N"
    using l1 t1 by auto
  have "0 < (2 :: nat) ^ 32" by simp
  from writeUInt32LE_take[OF this, of 6 b2 "[0x42, 0x4D] @ le32 ?N"]
  obtain b3 where s3: "writeUInt32LE 0 6 b2 = Inr b3" and l3: "length b3 = ?N"
    and t3: "take 10 b3 = [0x42, 0x4D] @ le32 ?N @ le32 0"
    using l2 t2 by auto
  have "54 < (2 :: nat) ^ 32" by simp
  from writeUInt32LE_take[OF this, of 10 b3 "[0x42, 0x4D] @ le32 ?N @ le32 0"]
  obtain b4 where s4: "writeUInt32LE 54 10 b3 = Inr b4" and l4: "length b4 = ?N"
    and t4: "take 14 b4 = [0x42, 0x4D] @ le32 ?N @ le32 0 @ le32 54"
    using l3 t3 by auto
  have "40 < (2 :: nat) ^ 32" by simp
  from writeUInt32LE_take[OF this, of 14 b4 "[0x42, 0x4D] @ le32 ?N @ le32 0 @ le32 54"]
  obtain b5 where s5: "writeUInt32LE 40 14 b4 = Inr b5" and l5: "length b5 = ?N"
    and t5: "take 18 b5 = [0x42, 0x4D] @ le32 ?N @ le32 0 @ le32 54 @ le32 40"
    using l4 t4 by auto
  have "?w < (2 :: nat) ^ 31" by (rule w31)
  from writeInt32LE_take[OF this, of 18 b5 "[0x42, 0x4D] @ le32 ?N @ le32 0 @ le32 54 @ le32 40"]
  obtain b6 where s6: "writeInt32LE ?w 18 b5 = Inr b6" and l6: "length b6 = ?N"
    and t6: "take 22 b6 = [0x42, 0x4D] @ le32 ?N @ le32 0 @ le32 54 @ le32 40 @ le32 ?w"
    using l5 t5 by auto
  have "?h < (2 :: nat) ^ 31" by (rule h31)
  from writeInt32LE_take[OF this, of 22 b6 "[0x42, 0x4D] @ le32 ?N @ le32 0 @ le32 54 @ le32 40 @ le32 ?w"]
  obtain b7 where s7: "writeInt32LE ?h 22 b6 = Inr b7" and l7: "length b7 = ?N"
    and t7: "take 26 b7 = [0x42, 0x4D] @ le32 ?N @ le32 0 @ le32 54 @ le32 40 @ le32 ?w @ le32 ?h"
    using l6 t6 by auto
  have "1 < (2 :: nat) ^ 16" by simp
  from writeUInt16LE_take[OF this, of 26 b7 "[0x42, 0x4D] @ le32 ?N @ le32 0 @ le32 54 @ le32 40 @ le32 ?w @ le32 ?h"]
  obtain b8 where s8: "writeUInt16LE 1 26 b7 = Inr b8" and l8: "length b8 = ?N"
    and t8: "take 28 b8 = [0x42, 0x4D] @ le32 ?N @ le32 0 @ le32 54 @ le32 40 @ le32 ?w @ le32 ?h @ le16 1"
    using l7 t7 by auto
  have "24 < (2 :: nat) ^ 16" by simp
  from writeUInt16LE_take[OF this, of 28 b8 "[0x42, 0x4D] @ le32 ?N @ le32 0 @ le32 54 @ le32 40 @ le32 ?w @ le32 ?h @ le16 1"]
  obtain b9 where s9: "writeUInt16LE 24 28 b8 = Inr b9" and l9: "length b9 = ?N"
    and t9: "take 30 b9 = [0x42, 0x4D] @ le32 ?N @ le32 0 @ le32 54 @ le32 40 @ le32 ?w @ le32 ?h @ le16 1 @ le16 24"
    using l8 t8 by auto
  have "0 < (2 :: nat) ^ 32" by simp
  from writeUInt32LE_take[OF this, of 30 b9 "[0x42, 0x4D] @ le32 ?N @ le32 0 @ le32 54 @ le32 40 @ le32 ?w @ le32 ?h @ le16 1 @ le16 24"]
  obtain b10 where s10: "writeUInt32LE 0 30 b9 = Inr b10" and l10: "length b10 = ?N"
    and t10: "take 34 b10 = [0x42, 0x4D] @ le32 ?N @ le32 0 @ le32 54 @ le32 40 @ le32 ?w @ le32 ?h @ le16 1 @ le16 24 @ le32 0"
    using l9 t9 by auto
  have "(?R * ?h) < (2 :: nat) ^ 32" by (rule P32)
  from writeUInt32LE_take[OF this, of 34 b10 "[0x42, 0x4D] @ le32 ?N @ le32 0 @ le32 54 @ le32 40 @ le32 ?w @ le32 ?h @ le16 1 @ le16 24 @ le32 0"]
  obtain b11 where s11: "writeUInt32LE (?R * ?h) 34 b10 = Inr b11" and l11: "length b11 = ?N"
    and t11: "take 38 b11 = [0x42, 0x4D] @ le32 ?N @ le32 0 @ le32 54 @ le32 40 @ le32 ?w @ le32 ?h @ le16 1 @ le16 24 @ le32 0 @ le32 (?R * ?h)"
    using l10 t10 by auto
  have "2835 < (2 :: nat) ^ 31" by simp
  from writeInt32LE_take[OF this, of 38 b11 "[0x42, 0x4D] @ le32 ?N @ le32 0 @ le32 54 @ le32 40 @ le32 ?w @ le32 ?h @ le16 1 @ le16 24 @ le32 0 @ le32 (?R * ?h)"]
  obtain b12 where s12: "writeInt32LE 2835 38 b11 = Inr b12" and l12: "length b12 = ?N"
    and t12: "take 42 b12 = [0x42, 0x4D] @ le32 ?N @ le32 0 @ le32 54 @ le32 40 @ le32 ?w @ le32 ?h @ le16 1 @ le16 24 @ le32 0 @ le32 (?R * ?h) @ le32 2835"
    using l11 t11 by auto
  have "2835 < (2 :: nat) ^ 31" by simp
  from writeInt32LE_take[OF this, of 42 b12 "[0x42, 0x4D] @ le32 ?N @ le32 0 @ le32 54 @ le32 40 @ le32 ?w @ le32 ?h @ le16 1 @ le16 24 @ le32 0 @ le32 (?R * ?h) @ le32 2835"]
  obtain b13 where s13: "writeInt32LE 2835 42 b12 = Inr b13" and l13: "length b13 = ?N"
    and t13: "take 46 b13 = [0x42, 0x4D] @ le32 ?N @ le32 0 @ le32 54 @ le32 40 @ le32 ?w @ le32 ?h @ le16 1 @ le16 24 @ le32 0 @ le32 (?R * ?h) @ le32 2835 @ le32 2835"
    using l12 t12 by auto
  have "0 < (2 :: nat) ^ 32" by simp
  from writeUInt32LE_take[OF this, of 46 b13 "[0x42, 0x4D] @ le32 ?N @ le32 0 @ le32 54 @ le32 40 @ le32 ?w @ le32 ?h @ le16 1 @ le16 24 @ le32 0 @ le32 (?R * ?h) @ le32 2835 @ le32 2835"]
  obtain b14 where s14: "writeUInt32LE 0 46 b13 = Inr b14" and l14: "length b14 = ?N"
    and t14: "take 50 b14 = [0x42, 0x4D] @ le32 ?N @ le32 0 @ le32 54 @ le32 40 @ le32 ?w @ le32 ?h @ le16 1 @ le16 24 @ le32 0 @ le32 (?R * ?h) @ le32 2835 @ le32 2835 @ le32 0"
    using l13 t13 by auto
  have "0 < (2 :: nat) ^ 32" by simp
  from writeUInt32LE_take[OF this, of 50 b14 "[0x42, 0x4D] @ le32 ?N @ le32 0 @ le32 54 @ le32 40 @ le32 ?w @ le32 ?h @ le16 1 @ le16 24 @ le32 0 @ le32 (?R * ?h) @ le32 2835 @ le32 2835 @ le32 0"]
  obtain b15 where s15: "writeUInt32LE 0 50 b14 = Inr b15" and l15: "length b15 = ?N"
    and t15: "take 54 b15 = [0x42, 0x4D] @ le32 ?N @ le32 0 @ le32 54 @ le32 40 @ le32 ?w @ le32 ?h @ le16 1 @ le16 24 @ le32 0 @ le32 (?R * ?h) @ le32 2835 @ le32 2835 @ le32 0 @ le32 0"
    using l14 t14 by auto
  have hdr: "take 54 b15 = bmpHeader ?w ?h"
    unfolding t15 bmpHeader_def by simp
  have "54 + ?R * length (rev [0..<?h]) \<le> length b15"
    using l15 by simp
  from bmpRows_take[OF this, of ?d]
  obtain b16 where rows: "fold (bmpRow ?w ?R ?d) (rev [0..<?h]) (b15, 54) = (b16, 54 + ?R * length (rev [0..<?h]))"
    and l16: "length b16 = length b15"
    and t16: "take (54 + ?R * length (rev [0..<?h])) b16
        = take 54 b15 @ concat (map (bmpRowBytes ?w ?d) (rev [0..<?h]))"
    by blast
  have "take (length b16) b16 = bmpFile img"
    using t16 l16 l15 hdr by (simp add: bmpFile_def)
  then have b16: "b16 = bmpFile img" by simp
  have "createBMP img = Inr (fst (fold (bmpRow ?w ?R ?d) (rev [0..<?h]) (b15, 54)))"
    unfolding createBMP_def Let_def bmpRowSize_def[symmetric] thenE_def b1_def[symmetric]
    by (simp only: sum.case s2 s3 s4 s5 s6 s7 s8 s9 s10 s11 s12 s13 s14 s15)
  then show ?thesis
    unfolding rows b16 by simp
qed


lemma nth_concat_uniform:
  assumes "\<forall>r\<in>set rows. length r = n" "i < length rows" "j < n"
  shows "concat rows ! (i * n + j) = rows ! i ! j"
  using assms
proof (induction rows arbitrary: i)
  case Nil
  then show ?case by simp
next
  case (Cons r rows)
  show ?case
  proof (cases i)
    case 0
    with Cons.prems show ?thesis by (simp add: nth_append)
  next
    case (Suc k)
    with Cons.prems have "concat rows ! (k * n + j) = rows ! k ! j"
      by (intro Cons.IH) auto
    moreover have "(r @ concat rows) ! (Suc k * n + j) = concat rows ! (k * n + j)"
      using Cons.prems(1) by (simp add: nth_append)
    ultimately show ?thesis using Suc by simp
  qed
qed

lemma length_bmpRowBytes: "length (bmpRowBytes w d y) = bmpRowSize w"
proof -
  have "length (concat (map (\<lambda>x. [d ! ((y * w + x) * 4 + 2), d ! ((y * w + x) * 4 + 1),
      d ! ((y * w + x) * 4)]) [0..<w])) = w * 3"
    by (simp add: length_concat comp_def sum_list_triv)
  then show ?thesis
    using bmpRowSize_bounds(1)[of w] by (simp add: bmpRowBytes_def)
qed

lemma length_bmpHeader: "length (bmpHeader w h) = 54"
  by (simp add: bmpHeader_def le32_def le16_def)

lemma length_bmpFile: "length (bmpFile img) = 54 + bmpRowSize (width img) * height img"
  by (simp add: bmpFile_def length_bmpHeader length_concat comp_def length_bmpRowBytes sum_list_triv)

lemma bmpRowBytes_pixel:
  assumes "x < w" "c < 3"
  shows "bmpRowBytes w d y ! (3 * x + c) = d ! ((y * w + x) * 4 + (2 - c))"
proof -
  let ?px = "\<lambda>x. [d ! ((y * w + x) * 4 + 2), d ! ((y * w + x) * 4 + 1), d ! ((y * w + x) * 4)]"
  have len: "length (concat (map ?px [0..<w])) = w * 3"
    by (simp add: length_concat comp_def sum_list_triv)
  have lt: "3 * x + c < w * 3" using assms by simp
  have "concat (map ?px [0..<w]) ! (x * 3 + c) = map ?px [0..<w] ! x ! c"
    using assms by (intro nth_concat_uniform) auto
  also have "\<dots> = ?px x ! c" using assms by simp
  also have "\<dots> = d ! ((y * w + x) * 4 + (2 - c))"
  proof -
    consider "c = 0" | "c = 1" | "c = 2" using assms(2) by arith
    then show ?thesis by cases simp_all
  qed
  finally show ?thesis
    using lt len by (simp add: bmpRowBytes_def nth_append mult.commute)
qed

lemma bmpRowBytes_padding:
  assumes "w * 3 \<le> p" "p < bmpRowSize w"
  shows "bmpRowBytes w d y ! p = 0"
proof -
  let ?px = "\<lambda>x. [d ! ((y * w + x) * 4 + 2), d ! ((y * w + x) * 4 + 1), d ! ((y * w + x) * 4)]"
  have len: "length (concat (map ?px [0..<w])) = w * 3"
    by (simp add: length_concat comp_def sum_list_triv)
  show ?thesis
    using assms len by (simp add: bmpRowBytes_def nth_append)
qed

lemma bmpFile_row:
  assumes "y < height img" "j < bmpRowSize (width img)"
  shows "bmpFile img ! (54 + (height img - 1 - y) * bmpRowSize (width img) + j)
         = bmpRowBytes (width img) (data img) y ! j"
proof -
  let ?rows = "map (bmpRowBytes (width img) (data img)) (rev [0..<height img])"
  have i: "height img - 1 - y < length ?rows" using assms(1) by simp
  have "concat ?rows ! ((height img - 1 - y) * bmpRowSize (width img) + j)
      = ?rows ! (height img - 1 - y) ! j"
    using i assms(2) by (intro nth_concat_uniform) (auto simp: length_bmpRowBytes)
  also have "?rows ! (height img - 1 - y) = bmpRowBytes (width img) (data img) y"
    using assms(1) by (simp add: rev_nth)
  finally show ?thesis
    by (simp add: bmpFile_def nth_append length_bmpHeader add.assoc)
qed

lemma unat_byte_of_nat: "unat (of_nat n :: byte) = n mod 256"
  by (simp add: unat_of_nat)

lemma read_le16:
  assumes "v < 2 ^ 16"
  shows "unat (of_nat v :: byte) + unat (of_nat (v div 2 ^ 8) :: byte) * 2 ^ 8 = v"
proof -
  have "v div 256 < 256" using assms by simp
  then have "v div 256 mod 256 = v div 256" by simp
  then show ?thesis
    unfolding unat_byte_of_nat by simp
qed

lemma read_le32:
  assumes "v < 2 ^ 32"
  shows "unat (of_nat v :: byte) + unat (of_nat (v div 2 ^ 8) :: byte) * 2 ^ 8
       + unat (of_nat (v div 2 ^ 16) :: byte) * 2 ^ 16
       + unat (of_nat (v div 2 ^ 24) :: byte) * 2 ^ 24 = v"
proof -
  define a where "a = v div 256"
  define b where "b = a div 256"
  define c where "c = b div 256"
  define v0 where "v0 = v mod 256"
  define a0 where "a0 = a mod 256"
  define b0 where "b0 = b mod 256"
  have v: "v = a * 256 + v0" unfolding a_def v0_def by simp
  have a: "a = b * 256 + a0" unfolding b_def a0_def by simp
  have b: "b = c * 256 + b0" unfolding c_def b0_def by simp
  have d16: "v div 65536 = b" unfolding b_def a_def by (simp add: div_mult2_eq)
  have d24: "v div 16777216 = c" unfolding c_def b_def a_def by (simp add: div_mult2_eq)
  have "c < 256" using assms unfolding d24[symmetric] by simp
  then have c: "c mod 256 = c" by simp
  have "v0 + a0 * 256 + b0 * 65536 + c * 16777216 = v"
    unfolding v a b by simp
  then show ?thesis
    unfolding unat_byte_of_nat
    by (simp add: a_def[symmetric] v0_def[symmetric] a0_def[symmetric] b0_def[symmetric] d16 d24 c)
qed

lemma bmpFile_header_nth:
  assumes "i < 54"
  shows "bmpFile img ! i = bmpHeader (width img) (height img) ! i"
  using assms by (simp add: bmpFile_def nth_append length_bmpHeader)

lemma readUInt32LE_le32:
  assumes "v < 2 ^ 32" "buf ! off = of_nat v" "buf ! (off + 1) = of_nat (v div 2 ^ 8)"
    "buf ! (off + 2) = of_nat (v div 2 ^ 16)" "buf ! (off + 3) = of_nat (v div 2 ^ 24)"
  shows "readUInt32LE buf off = v"
  unfolding readUInt32LE_def assms(2-5) using assms(1) by (rule read_le32)

lemma readUInt16LE_le16:
  assumes "v < 2 ^ 16" "buf ! off = of_nat v" "buf ! (off + 1) = of_nat (v div 2 ^ 8)"
  shows "readUInt16LE buf off = v"
  unfolding readUInt16LE_def assms(2-3) using assms(1) by (rule read_le16)

lemma bmpFile_fields:
  assumes w31: "width img < 2 ^ 31" and h31: "height img < 2 ^ 31"
    and N32: "54 + bmpRowSize (width img) * height img < 2 ^ 32"
  shows "bmpFile img ! 0 = 0x42" "bmpFile img ! 1 = 0x4D"
    "readUInt32LE (bmpFile img) 2 = 54 + bmpRowSize (width img) * height img"
    "readUInt32LE (bmpFile img) 10 = 54"
    "readUInt32LE (bmpFile img) 14 = 40"
    "readUInt32LE (bmpFile img) 18 = width img"
    "readUInt32LE (bmpFile img) 22 = height img"
    "readUInt16LE (bmpFile img) 26 = 1"
    "readUInt16LE (bmpFile img) 28 = 24"
    "readUInt32LE (bmpFile img) 30 = 0"
    "readUInt32LE (bmpFile img) 34 = bmpRowSize (width img) * height img"
proof -
  show "bmpFile img ! 0 = 0x42" "bmpFile img ! 1 = 0x4D"
    by (simp_all add: bmpFile_header_nth bmpHeader_def)
  show "readUInt32LE (bmpFile img) 2 = 54 + bmpRowSize (width img) * height img"
    using N32 by (rule readUInt32LE_le32) (simp_all add: bmpFile_header_nth bmpHeader_def le32_def le16_def)
  show "readUInt32LE (bmpFile img) 10 = 54"
    by (rule readUInt32LE_le32) (simp_all add: bmpFile_header_nth bmpHeader_def le32_def le16_def)
  show "readUInt32LE (bmpFile img) 14 = 40"
    by (rule readUInt32LE_le32) (simp_all add: bmpFile_header_nth bmpHeader_def le32_def le16_def)
  have "width img < 2 ^ 32" using w31 by simp
  then show "readUInt32LE (bmpFile img) 18 = width img"
    by (rule readUInt32LE_le32) (simp_all add: bmpFile_header_nth bmpHeader_def le32_def le16_def)
  have "height img < 2 ^ 32" using h31 by simp
  then show "readUInt32LE (bmpFile img) 22 = height img"
    by (rule readUInt32LE_le32) (simp_all add: bmpFile_header_nth bmpHeader_def le32_def le16_def)
  show "readUInt16LE (bmpFile img) 26 = 1"
    by (rule readUInt16LE_le16) (simp_all add: bmpFile_header_nth bmpHeader_def le32_def le16_def)
  show "readUInt16LE (bmpFile img) 28 = 24"
    by (rule readUInt16LE_le16) (simp_all add: bmpFile_header_nth bmpHeader_def le32_def le16_def)
  show "readUInt32LE (bmpFile img) 30 = 0"
    by (rule readUInt32LE_le32) (simp_all add: bmpFile_header_nth bmpHeader_def le32_def le16_def)
  have "bmpRowSize (width img) * height img < 2 ^ 32" using N32 by simp
  then show "readUInt32LE (bmpFile img) 34 = bmpRowSize (width img) * height img"
    by (rule readUInt32LE_le32) (simp_all add: bmpFile_header_nth bmpHeader_def le32_def le16_def)
qed


text \<open>
  C3. For a canvas of width \<open>W \<ge> 1\<close> and height \<open>H \<ge> 1\<close> (its pixel data \<open>4 * W * H\<close> bytes
  long, as \<^verbatim>\<open>getImageData\<close> returns them) whose file size
  \<open>54 + ceil(W * 3 / 4) * 4 * H\<close> fits the 32-bit size field, \<^verbatim>\<open>createBMP\<close> returns a buffer of
  exactly that many bytes that begins with "BM" and holds the file size at offset 2, 54 at
  offset 10, 40 at offset 14, \<open>W\<close> at offset 18, \<open>H\<close> (positive) at offset 22, 1 at offset
  26, 24 at offset 28, 0 at offset 30 and the pixel-data size at offset 34, all
  little-endian. The row size is the least multiple of 4 that is at least \<open>3 * W\<close>; the
  rows are stored bottom row first, each pixel as B, G, R, and the rest of each row is 0.
\<close>

theorem createBMP_layout:
  assumes "1 \<le> width img" and "1 \<le> height img"
    and "54 + nat \<lceil>real (width img * 3) / 4\<rceil> * 4 * height img < 2 ^ 32"
    and "wf_image img"
  shows "\<exists>buffer. createBMP img = Inr buffer
      \<and> length buffer = 54 + nat \<lceil>real (width img * 3) / 4\<rceil> * 4 * height img
      \<and> buffer ! 0 = 0x42 \<and> buffer ! 1 = 0x4D
      \<and> readUInt32LE buffer 2 = length buffer
      \<and> readUInt32LE buffer 10 = 54
      \<and> readUInt32LE buffer 14 = 40
      \<and> readInt32LE buffer 18 = int (width img)
      \<and> readInt32LE buffer 22 = int (height img)
      \<and> readUInt16LE buffer 26 = 1
      \<and> readUInt16LE buffer 28 = 24
      \<and> readUInt32LE buffer 30 = 0
      \<and> readUInt32LE buffer 34 = bmpRowSize (width img) * height img
      \<and> bmpRowSize (width img) = nat \<lceil>real (width img * 3) / 4\<rceil> * 4
      \<and> bmpRowSize (width img) mod 4 = 0
      \<and> width img * 3 \<le> bmpRowSize (width img)
      \<and> bmpRowSize (width img) < width img * 3 + 4
      \<and> (\<forall>y<height img. \<forall>x<width img.
            buffer ! (54 + (height img - 1 - y) * bmpRowSize (width img) + 3 * x)
              = data img ! ((y * width img + x) * 4 + 2)
          \<and> buffer ! (54 + (height img - 1 - y) * bmpRowSize (width img) + 3 * x + 1)
              = data img ! ((y * width img + x) * 4 + 1)
          \<and> buffer ! (54 + (height img - 1 - y) * bmpRowSize (width img) + 3 * x + 2)
              = data img ! ((y * width img + x) * 4))
      \<and> (\<forall>y<height img. \<forall>p. width img * 3 \<le> p \<and> p < bmpRowSize (width img) \<longrightarrow>
            buffer ! (54 + (height img - 1 - y) * bmpRowSize (width img) + p) = 0)"
proof -
  let ?w = "width img" and ?h = "height img" and ?R = "bmpRowSize (width img)"
  have N32: "54 + ?R * ?h < 2 ^ 32"
    using assms(3) by (simp add: bmpRowSize_def)
  have R3: "?w * 3 \<le> ?R" by (rule bmpRowSize_bounds)
  have "?R * 1 \<le> ?R * ?h" using assms(2) by (intro mult_le_mono2) simp
  then have "?R \<le> ?R * ?h" by (simp only: mult_1_right)
  with R3 have "?w * 3 \<le> ?R * ?h" by (rule le_trans)
  have p: "(2 :: nat) ^ 31 = 2147483648" "(2 :: nat) ^ 32 = 4294967296" by simp_all
  have w31: "?w < 2 ^ 31"
    using \<open>?w * 3 \<le> ?R * ?h\<close> N32 unfolding p by linarith
  have "3 \<le> ?R" using R3 assms(1) by simp
  then have "3 * ?h \<le> ?R * ?h" by (intro mult_le_mono1)
  then have h31: "?h < 2 ^ 31"
    using N32 unfolding p by linarith
  have eq: "createBMP img = Inr (bmpFile img)"
    using w31 h31 N32 by (rule createBMP_eq_bmpFile)
  note f = bmpFile_fields[OF w31 h31 N32]
  have len: "length (bmpFile img) = 54 + nat \<lceil>real (?w * 3) / 4\<rceil> * 4 * ?h"
    by (simp add: length_bmpFile bmpRowSize_def)
  have i18: "readInt32LE (bmpFile img) 18 = int ?w"
    using w31 by (simp add: readInt32LE_def f Let_def)
  have i22: "readInt32LE (bmpFile img) 22 = int ?h"
    using h31 by (simp add: readInt32LE_def f Let_def)
  have px: "bmpFile img ! (54 + (?h - 1 - y) * ?R + 3 * x) = data img ! ((y * ?w + x) * 4 + 2)
          \<and> bmpFile img ! (54 + (?h - 1 - y) * ?R + 3 * x + 1) = data img ! ((y * ?w + x) * 4 + 1)
          \<and> bmpFile img ! (54 + (?h - 1 - y) * ?R + 3 * x + 2) = data img ! ((y * ?w + x) * 4)"
    if "y < ?h" "x < ?w" for y x
  proof -
    have j: "3 * x + c < ?R" if "c < 3" for c
      using that \<open>x < ?w\<close> R3 by simp
    have "bmpFile img ! (54 + (?h - 1 - y) * ?R + (3 * x + c)) = data img ! ((y * ?w + x) * 4 + (2 - c))"
      if "c < 3" for c
      using bmpFile_row[OF \<open>y < ?h\<close> j[OF that]] bmpRowBytes_pixel[OF \<open>x < ?w\<close> that, of "data img" y]
      by simp
    from this[of 0] this[of 1] this[of 2] show ?thesis
      by (simp add: add.assoc)
  qed
  have pad: "bmpFile img ! (54 + (?h - 1 - y) * ?R + p) = 0"
    if "y < ?h" "?w * 3 \<le> p" "p < ?R" for y p
    using bmpFile_row[OF that(1,3)] bmpRowBytes_padding[OF that(2,3), of "data img" y] by simp
  have rs: "?R = nat \<lceil>real (?w * 3) / 4\<rceil> * 4"
    by (simp only: bmpRowSize_def)
  have f3: "readUInt32LE (bmpFile img) 2 = length (bmpFile img)"
    by (simp only: f(3) length_bmpFile)
  have pxs: "\<forall>y<?h. \<forall>x<?w.
            bmpFile img ! (54 + (?h - 1 - y) * ?R + 3 * x) = data img ! ((y * ?w + x) * 4 + 2)
          \<and> bmpFile img ! (54 + (?h - 1 - y) * ?R + 3 * x + 1) = data img ! ((y * ?w + x) * 4 + 1)
          \<and> bmpFile img ! (54 + (?h - 1 - y) * ?R + 3 * x + 2) = data img ! ((y * ?w + x) * 4)"
    using px by blast
  have pads: "\<forall>y<?h. \<forall>p. ?w * 3 \<le> p \<and> p < ?R \<longrightarrow>
            bmpFile img ! (54 + (?h - 1 - y) * ?R + p) = 0"
    using pad by blast
  show ?thesis
    apply (rule exI[of _ "bmpFile img"])
    apply (intro conjI)
                      apply (rule eq)
                      apply (rule len)
                      apply (rule f(1))
                      apply (rule f(2))
                      apply (rule f3)
                     apply (rule f(4))
                    apply (rule f(5))
                   apply (rule i18)
                  apply (rule i22)
                 apply (rule f(8))
                apply (rule f(9))
               apply (rule f(10))
              apply (rule f(11))
             apply (rule rs)
            apply (rule bmpRowSize_bounds(3))
           apply (rule bmpRowSize_bounds(1))
          apply (rule bmpRowSize_bounds(2))
     apply (rule pxs)
    apply (rule pads)
    done
qed

theorem createBMP_layout_witness:
  "\<exists>buffer. createBMP \<lparr>width = 3, height = 2,
        data = [1, 2, 3, 4, 5, 6, 7, 8, 9, 10, 11, 12, 13, 14, 15, 16, 17, 18, 19, 20, 21, 22, 23, 24]\<rparr>
      = Inr buffer
    \<and> length buffer = 78 \<and> readUInt32LE buffer 2 = 78
    \<and> readInt32LE buffer 18 = 3 \<and> readInt32LE buffer 22 = 2
    \<and> buffer ! 54 = 15 \<and> buffer ! 55 = 14 \<and> buffer ! 56 = 13 \<and> buffer ! 63 = 0"
proof -
  let ?img = "\<lparr>width = 3, height = 2,
        data = [1, 2, 3, 4, 5, 6, 7, 8, 9, 10, 11, 12, 13, 14, 15, 16, 17, 18, 19, 20, 21, 22, 23, 24 :: byte]\<rparr>"
  have R: "bmpRowSize 3 = 12"
    by (simp add: bmpRowSize_alt)
  have R': "nat \<lceil>real (3 * 3) / 4\<rceil> * 4 = 12"
    using R by (simp add: bmpRowSize_def)
  have h: "1 \<le> width ?img" "1 \<le> height ?img"
    "54 + nat \<lceil>real (width ?img * 3) / 4\<rceil> * 4 * height ?img < 2 ^ 32"
    "wf_image ?img"
    using R' by (simp_all add: wf_image_def)
  from createBMP_layout[OF h]
  obtain buffer where b: "createBMP ?img = Inr buffer"
    "length buffer = 54 + nat \<lceil>real (width ?img * 3) / 4\<rceil> * 4 * height ?img"
    "readUInt32LE buffer 2 = length buffer"
    "readInt32LE buffer 18 = int (width ?img)" "readInt32LE buffer 22 = int (height ?img)"
    and px: "\<And>y x. y < height ?img \<Longrightarrow> x < width ?img \<Longrightarrow>
            buffer ! (54 + (height ?img - 1 - y) * bmpRowSize (width ?img) + 3 * x)
              = data ?img ! ((y * width ?img + x) * 4 + 2)
          \<and> buffer ! (54 + (height ?img - 1 - y) * bmpRowSize (width ?img) + 3 * x + 1)
              = data ?img ! ((y * width ?img + x) * 4 + 1)
          \<and> buffer ! (54 + (height ?img - 1 - y) * bmpRowSize (width ?img) + 3 * x + 2)
              = data ?img ! ((y * width ?img + x) * 4)"
    and pad: "\<And>y p. y < height ?img \<Longrightarrow> width ?img * 3 \<le> p \<and> p < bmpRowSize (width ?img) \<Longrightarrow>
            buffer ! (54 + (height ?img - 1 - y) * bmpRowSize (width ?img) + p) = 0"
    by blast
  have "length buffer = 78" using b(2) R' by simp
  moreover have "buffer ! 54 = 15 \<and> buffer ! 55 = 14 \<and> buffer ! 56 = 13"
    using px[of 1 0] by (simp add: R)
  moreover have "buffer ! 63 = 0"
    using pad[of 1 9] by (simp add: R)
  ultimately show ?thesis
    using b by simp
qed

end
